theory Spec2Isabelle
  imports Complex_Main "HOL-Library.Word"
begin

section \<open>The minimap colour tracker and character renderer\<close>

text \<open>
  A shallow embedding of \<^verbatim>\<open>src/vs/editor/common/view/minimapCharRenderer.ts\<close>.

  JavaScript values are modelled as follows.
  \<^item> A byte of a \<^verbatim>\<open>Uint8ClampedArray\<close> and a channel of an \<^verbatim>\<open>RGBA8\<close> is an \<open>8 word\<close>.
  \<^item> The integers of the program (colour identifiers, character codes, coordinates,
    the scale, array indices) are \<open>int\<close>. A character code is an integer of any size
    that a double holds, so \<^verbatim>\<open>_getChIndex\<close> rounds its sums as double arithmetic does.
  \<^item> The fractional numbers of the program (an atlas sample divided by 255, a softening
    ratio, a blended channel) are exact rationals; \<open>None\<close> of type \<open>rat option\<close>
    is \<^verbatim>\<open>NaN\<close>, which arises only from \<^verbatim>\<open>undefined / 255\<close>.
  \<^item> Reading an array outside its bounds yields \<^verbatim>\<open>undefined\<close>: \<open>None\<close>.
  \<^item> Writing a typed array outside its bounds does nothing.
\<close>

type_synonym u8 = "8 word"

subsection \<open>RGBA8 and the source colours\<close>

text \<open>
  Modelled from the spec: the class \<^verbatim>\<open>RGBA8\<close> of \<^verbatim>\<open>vs/editor/common/core/rgba\<close> is defined
  in another module. The spec describes it as four 8-bit unsigned channels
  (r, g, b, a), a value type; \<^verbatim>\<open>RGBA8.Empty\<close> is the sentinel at palette index 0.
  The fields carry the prefix \<open>rgba8_\<close>.
\<close>

record RGBA8 =
  rgba8_r :: u8
  rgba8_g :: u8
  rgba8_b :: u8
  rgba8_a :: u8

definition RGBA8_Empty :: RGBA8 where
  "RGBA8_Empty = \<lparr>rgba8_r = 0, rgba8_g = 0, rgba8_b = 0, rgba8_a = 0\<rparr>"

definition clamp8 :: "int \<Rightarrow> u8" where
  "clamp8 c = (if c < 0 then 0 else if 255 < c then 255 else word_of_int c)"

definition new_RGBA8 :: "int \<Rightarrow> int \<Rightarrow> int \<Rightarrow> int \<Rightarrow> RGBA8" where
  "new_RGBA8 r g b a =
     \<lparr>rgba8_r = clamp8 r, rgba8_g = clamp8 g, rgba8_b = clamp8 b, rgba8_a = clamp8 a\<rparr>"

text \<open>
  Modelled from the spec: an entry of the upstream colour map (class \<^verbatim>\<open>Color\<close>, defined in
  another module) has a field \<^verbatim>\<open>rgba\<close> with integer channels r, g, b and a
  fractional alpha in [0,1]. Its method \<^verbatim>\<open>getRelativeLuminance\<close> is an external utility
  and is a parameter of the model.
\<close>

record RGBA =
  rgba_r :: int
  rgba_g :: int
  rgba_b :: int
  rgba_a :: rat

record Color =
  rgba :: RGBA

text \<open>\<^verbatim>\<open>Math.round\<close>: the nearest integer, a tie going up.\<close>

definition Math_round :: "rat \<Rightarrow> int" where
  "Math_round x = \<lfloor>x + 1 / 2\<rfloor>"

subsection \<open>JavaScript arrays\<close>

text \<open>
  A palette is a JavaScript array of \<^verbatim>\<open>RGBA8\<close>: a list whose entries are \<open>Some c\<close>, or
  \<open>None\<close> for a hole. \<open>array_get\<close> is the read \<^verbatim>\<open>xs[i]\<close> (\<open>None\<close> is \<^verbatim>\<open>undefined\<close>),
  \<open>array_set\<close> is the assignment \<^verbatim>\<open>xs[i] = v\<close>, which extends the array.
\<close>

definition array_get :: "'a option list \<Rightarrow> int \<Rightarrow> 'a option" where
  "array_get xs i = (if 0 \<le> i \<and> i < int (length xs) then xs ! nat i else None)"

definition array_set :: "'a option list \<Rightarrow> nat \<Rightarrow> 'a \<Rightarrow> 'a option list" where
  "array_set xs i v =
     (if i < length xs then xs[i := Some v]
      else xs @ replicate (i - length xs) None @ [Some v])"

text \<open>The read \<^verbatim>\<open>colorMap[i]\<close> of the upstream colour map, an array without holes.\<close>

definition colorMap_get :: "'a list \<Rightarrow> int \<Rightarrow> 'a option" where
  "colorMap_get cm i = (if 0 \<le> i \<and> i < int (length cm) then Some (cm ! nat i) else None)"

subsection \<open>MinimapTokensColorTracker\<close>

text \<open>
  The tracker's state: the palette \<^verbatim>\<open>_colors\<close>, the flag \<^verbatim>\<open>_backgroundIsLight\<close>, and the
  emissions of \<^verbatim>\<open>_onDidChange\<close>. Every emission records the palette and the flag that a
  listener, which runs synchronously inside \<^verbatim>\<open>fire\<close>, reads from the tracker.
\<close>

record tracker =
  colors :: "RGBA8 option list"
  backgroundIsLight :: bool
  fired :: "(RGBA8 option list \<times> bool) list"

definition fire :: "tracker \<Rightarrow> tracker" where
  "fire this = this\<lparr>fired := fired this @ [(colors this, backgroundIsLight this)]\<rparr>"

text \<open>How a call ends: it returns, or it throws a \<^verbatim>\<open>TypeError\<close>.\<close>

datatype outcome = Returned | TypeError

text \<open>
  The loop of \<^verbatim>\<open>_updateColorMap\<close>:
  \<^verbatim>\<open>for (let colorId = 1; colorId < colorMap.length; colorId++) { this._colors[colorId] = new RGBA8(...) }\<close>
\<close>

function updateColorMap_loop :: "Color list \<Rightarrow> nat \<Rightarrow> RGBA8 option list \<Rightarrow> RGBA8 option list" where
  "updateColorMap_loop colorMap colorId cs =
     (if colorId < length colorMap then
        let source = rgba (colorMap ! colorId) in
        updateColorMap_loop colorMap (colorId + 1)
          (array_set cs colorId
             (new_RGBA8 (rgba_r source) (rgba_g source) (rgba_b source)
                (Math_round (rgba_a source * 255))))
      else cs)"
  by pat_completeness auto
termination
  by (relation "measure (\<lambda>(colorMap, colorId, cs). length colorMap - colorId)") auto

declare updateColorMap_loop.simps [simp del]

text \<open>
  \<^verbatim>\<open>_updateColorMap\<close>. The parameters stand for what other modules define:
  \<open>DefaultBackground\<close> is the value of the enum member \<^verbatim>\<open>ColorId.DefaultBackground\<close>,
  \<open>getRelativeLuminance\<close> is the method of \<^verbatim>\<open>Color\<close>, and \<open>colorMap\<close> is what
  \<^verbatim>\<open>TokenizationRegistry.getColorMap()\<close> returns (\<open>None\<close> is \<^verbatim>\<open>null\<close>; an array, also
  an empty one, is truthy). Calling \<^verbatim>\<open>getRelativeLuminance\<close> on \<^verbatim>\<open>undefined\<close> throws; the
  assignments made before remain.
\<close>

definition updateColorMap ::
  "int \<Rightarrow> (Color \<Rightarrow> rat) \<Rightarrow> Color list option \<Rightarrow> tracker \<Rightarrow> outcome \<times> tracker" where
  "updateColorMap DefaultBackground getRelativeLuminance colorMap this =
     (case colorMap of
        None \<Rightarrow>
          (Returned, this\<lparr>colors := [Some RGBA8_Empty], backgroundIsLight := True\<rparr>)
      | Some cm \<Rightarrow>
          let this1 = this\<lparr>colors := [Some RGBA8_Empty]\<rparr>;
              this2 = this1\<lparr>colors := updateColorMap_loop cm 1 (colors this1)\<rparr>
          in (case colorMap_get cm DefaultBackground of
                None \<Rightarrow> (TypeError, this2)
              | Some bg \<Rightarrow>
                  let backgroundLuminosity = getRelativeLuminance bg;
                      this3 = this2\<lparr>backgroundIsLight := (1 / 2 \<le> backgroundLuminosity)\<rparr>
                  in (Returned, fire this3)))"

text \<open>\<^verbatim>\<open>getColor\<close>; \<open>None\<close> is the result \<^verbatim>\<open>undefined\<close> of a read outside the palette.\<close>

definition getColor :: "int \<Rightarrow> tracker \<Rightarrow> int \<Rightarrow> RGBA8 option" where
  "getColor DefaultBackground this colorId =
     (let colorId' = (if colorId < 1 \<or> int (length (colors this)) \<le> colorId
                      then DefaultBackground else colorId)
      in array_get (colors this) colorId')"

subsection \<open>Constants\<close>

definition START_CH_CODE :: int where "START_CH_CODE = 32"
definition END_CH_CODE :: int where "END_CH_CODE = 126"
definition CHAR_COUNT :: int where "CHAR_COUNT = END_CH_CODE - START_CH_CODE + 1"
definition x1_CHAR_HEIGHT :: int where "x1_CHAR_HEIGHT = 2"
definition x1_CHAR_WIDTH :: int where "x1_CHAR_WIDTH = 1"
definition RGBA_CHANNELS_CNT :: int where "RGBA_CHANNELS_CNT = 4"

text \<open>The remainder \<^verbatim>\<open>a % b\<close> of JavaScript on integers: it has the sign of \<open>a\<close>.\<close>

definition js_rem :: "int \<Rightarrow> int \<Rightarrow> int" where
  "js_rem a b = sgn a * (\<bar>a\<bar> mod \<bar>b\<bar>)"

text \<open>
  The result of an addition or subtraction of integers in double precision: the exact
  result rounded to the nearest double, a tie going to the even significand. An
  integer below 2^53 in magnitude is a double; a larger one with \<open>n\<close> binary digits is
  rounded to a multiple of 2^(n - 53). (Doubles end near 2^1024; the sums of
  \<^verbatim>\<open>_getChIndex\<close> on a finite double stay below.) The remainder \<^verbatim>\<open>%\<close> of two doubles is
  exact.
\<close>

function bitlen :: "int \<Rightarrow> nat" where
  "bitlen n = (if n \<le> 0 then 0 else Suc (bitlen (n div 2)))"
  by pat_completeness auto
termination
  by (relation "measure nat") auto

declare bitlen.simps [simp del]

definition round_to_double :: "int \<Rightarrow> int" where
  "round_to_double n =
     (let m = \<bar>n\<bar> in
      if m < 2 ^ 53 then n
      else
        let ulp = 2 ^ (bitlen m - 53);
            q = m div ulp;
            r = m mod ulp;
            q' = (if 2 * r < ulp then q
                  else if ulp < 2 * r then q + 1
                  else if even q then q else q + 1)
        in sgn n * (q' * ulp))"

definition getChIndex :: "int \<Rightarrow> int" where
  "getChIndex chCode =
     (let chCode1 = round_to_double (chCode - START_CH_CODE);
          chCode2 = (if chCode1 < 0 then round_to_double (chCode1 + CHAR_COUNT) else chCode1)
      in js_rem chCode2 CHAR_COUNT)"


subsection \<open>Typed arrays\<close>

text \<open>The number held by a byte.\<close>

definition num8 :: "u8 \<Rightarrow> rat" where
  "num8 v = of_nat (unat v)"

text \<open>
  The conversion \<^verbatim>\<open>ToUint8Clamp\<close> that a \<^verbatim>\<open>Uint8ClampedArray\<close> applies to a stored number:
  \<^verbatim>\<open>NaN\<close> becomes 0, the number is clamped to [0, 255] and rounded to the nearest
  integer, a tie going to the even neighbour.
\<close>

definition ToUint8Clamp :: "rat option \<Rightarrow> u8" where
  "ToUint8Clamp n =
     (case n of
        None \<Rightarrow> 0
      | Some x \<Rightarrow>
          if x \<le> 0 then 0
          else if 255 \<le> x then 255
          else let f = \<lfloor>x\<rfloor> in
            if x < of_int f + 1 / 2 then word_of_int f
            else if of_int f + 1 / 2 < x then word_of_int (f + 1)
            else if even f then word_of_int f
            else word_of_int (f + 1))"

text \<open>The store of a byte at an index of a typed array; outside the array nothing happens.\<close>

definition put :: "u8 list \<Rightarrow> int \<Rightarrow> u8 \<Rightarrow> u8 list" where
  "put dest i v = (if 0 \<le> i \<and> i < int (length dest) then dest[nat i := v] else dest)"

text \<open>The assignment \<^verbatim>\<open>dest[i] = n\<close> of a number to a \<^verbatim>\<open>Uint8ClampedArray\<close>.\<close>

definition u8c_set :: "u8 list \<Rightarrow> int \<Rightarrow> rat option \<Rightarrow> u8 list" where
  "u8c_set dest i n = put dest i (ToUint8Clamp n)"

text \<open>
  The read \<^verbatim>\<open>charData[sourceOffset]\<close> and the expression \<^verbatim>\<open>charData[sourceOffset] / 255\<close>:
  outside the atlas the read is \<^verbatim>\<open>undefined\<close> and the quotient is \<^verbatim>\<open>NaN\<close>.
\<close>

definition atlas_read :: "u8 list \<Rightarrow> int \<Rightarrow> u8 option" where
  "atlas_read charData sourceOffset =
     (if 0 \<le> sourceOffset \<and> sourceOffset < int (length charData)
      then Some (charData ! nat sourceOffset) else None)"

definition sample :: "u8 list \<Rightarrow> int \<Rightarrow> rat option" where
  "sample charData sourceOffset = map_option (\<lambda>v. num8 v / 255) (atlas_read charData sourceOffset)"

text \<open>
  The expression \<^verbatim>\<open>background + delta * c\<close>; \<^verbatim>\<open>NaN\<close> propagates. With \<open>c\<close> an atlas
  byte divided by 255 the exact value is a multiple of 1/255, so it is an integer or at
  least 1/510 away from the middle between two integers, and rounding in double
  precision stores the same byte as the exact value does. With \<open>c\<close> one half the
  computation is exact in double precision.
\<close>

definition blend :: "rat \<Rightarrow> rat \<Rightarrow> rat option \<Rightarrow> rat option" where
  "blend background delta c = map_option (\<lambda>c. background + delta * c) c"

subsection \<open>MinimapCharRenderer\<close>

record ImageData =
  width :: nat
  height :: nat
  data :: "u8 list"

record MinimapCharRenderer =
  charDataNormal :: "u8 list"
  charDataLight :: "u8 list"
  scale :: int

text \<open>
  \<^verbatim>\<open>soften\<close>: a fresh \<^verbatim>\<open>Uint8ClampedArray\<close> of the input's length is zero-filled, and the
  loop stores \<^verbatim>\<open>input[i] * ratio\<close> at every index. The product is exact here; in double
  precision it is rounded, which can matter for the byte stored only where the exact
  product is the middle between two integers.
\<close>

function soften_loop :: "u8 list \<Rightarrow> rat \<Rightarrow> nat \<Rightarrow> u8 list \<Rightarrow> u8 list" where
  "soften_loop input ratio i result =
     (if i < length input then
        soften_loop input ratio (i + 1) (u8c_set result (int i) (Some (num8 (input ! i) * ratio)))
      else result)"
  by pat_completeness auto
termination
  by (relation "measure (\<lambda>(input, ratio, i, result). length input - i)") auto

declare soften_loop.simps [simp del]

definition soften :: "u8 list \<Rightarrow> rat \<Rightarrow> u8 list" where
  "soften input ratio = soften_loop input ratio 0 (replicate (length input) 0)"

text \<open>The constructor.\<close>

definition new_MinimapCharRenderer :: "u8 list \<Rightarrow> int \<Rightarrow> MinimapCharRenderer" where
  "new_MinimapCharRenderer charData scale' =
     \<lparr>charDataNormal = soften charData (12 / 15),
      charDataLight = soften charData (50 / 60),
      scale = scale'\<rparr>"

text \<open>
  The inner loop of \<^verbatim>\<open>renderChar\<close> over \<open>x\<close>; the state is the target's bytes, the
  atlas offset and the column.
\<close>

function renderChar_cols ::
  "u8 list \<Rightarrow> int \<Rightarrow> rat \<Rightarrow> rat \<Rightarrow> rat \<Rightarrow> rat \<Rightarrow> rat \<Rightarrow> rat \<Rightarrow> int \<Rightarrow>
   u8 list \<times> int \<times> int \<Rightarrow> u8 list \<times> int \<times> int" where
  "renderChar_cols charData charWidth backgroundR backgroundG backgroundB deltaR deltaG deltaB x
     (dest, sourceOffset, column) =
     (if x < charWidth then
        let c = sample charData sourceOffset;
            dest1 = u8c_set dest column (blend backgroundR deltaR c);
            dest2 = u8c_set dest1 (column + 1) (blend backgroundG deltaG c);
            dest3 = u8c_set dest2 (column + 2) (blend backgroundB deltaB c)
        in renderChar_cols charData charWidth backgroundR backgroundG backgroundB
             deltaR deltaG deltaB (x + 1) (dest3, sourceOffset + 1, column + 4)
      else (dest, sourceOffset, column))"
  by pat_completeness auto
termination
  by (relation "measure (\<lambda>(charData, charWidth, bR, bG, bB, dR, dG, dB, x, s). nat (charWidth - x))")
    auto

declare renderChar_cols.simps [simp del]

text \<open>The outer loop of \<^verbatim>\<open>renderChar\<close> over \<open>y\<close>; the state is the bytes, the atlas offset and the row.\<close>

function renderChar_rows ::
  "u8 list \<Rightarrow> int \<Rightarrow> int \<Rightarrow> int \<Rightarrow> rat \<Rightarrow> rat \<Rightarrow> rat \<Rightarrow> rat \<Rightarrow> rat \<Rightarrow> rat \<Rightarrow> int \<Rightarrow>
   u8 list \<times> int \<times> int \<Rightarrow> u8 list \<times> int \<times> int" where
  "renderChar_rows charData charWidth charHeight destWidth backgroundR backgroundG backgroundB
     deltaR deltaG deltaB y (dest, sourceOffset, row) =
     (if y < charHeight then
        let column = row;
            (dest', sourceOffset', column') =
               renderChar_cols charData charWidth backgroundR backgroundG backgroundB
                 deltaR deltaG deltaB 0 (dest, sourceOffset, column)
        in renderChar_rows charData charWidth charHeight destWidth backgroundR backgroundG backgroundB
             deltaR deltaG deltaB (y + 1) (dest', sourceOffset', row + destWidth)
      else (dest, sourceOffset, row))"
  by pat_completeness auto
termination
  by (relation "measure (\<lambda>(charData, charWidth, charHeight, destWidth, bR, bG, bB, dR, dG, dB, y, s).
        nat (charHeight - y))") auto

declare renderChar_rows.simps [simp del]

text \<open>
  \<^verbatim>\<open>renderChar\<close>. The result is the diagnostic passed to \<^verbatim>\<open>console.warn\<close>, if any, and
  the target after the call.
\<close>

definition renderChar ::
  "MinimapCharRenderer \<Rightarrow> ImageData \<Rightarrow> int \<Rightarrow> int \<Rightarrow> int \<Rightarrow> RGBA8 \<Rightarrow> RGBA8 \<Rightarrow> bool \<Rightarrow>
   string option \<times> ImageData" where
  "renderChar this target dx dy chCode color backgroundColor useLighterFont =
     (let charWidth = x1_CHAR_WIDTH * scale this;
          charHeight = x1_CHAR_HEIGHT * scale this
      in if dx + charWidth > int (width target) \<or> dy + charHeight > int (height target)
         then (Some ''bad render request outside image data'', target)
         else
           let charData = (if useLighterFont then charDataLight this else charDataNormal this);
               charIndex = getChIndex chCode;
               destWidth = int (width target) * RGBA_CHANNELS_CNT;
               backgroundR = num8 (rgba8_r backgroundColor);
               backgroundG = num8 (rgba8_g backgroundColor);
               backgroundB = num8 (rgba8_b backgroundColor);
               deltaR = num8 (rgba8_r color) - backgroundR;
               deltaG = num8 (rgba8_g color) - backgroundG;
               deltaB = num8 (rgba8_b color) - backgroundB;
               dest = data target;
               sourceOffset = charIndex * charWidth * charHeight;
               row = dy * destWidth + dx * RGBA_CHANNELS_CNT;
               (dest', sourceOffset', row') =
                  renderChar_rows charData charWidth charHeight destWidth
                    backgroundR backgroundG backgroundB deltaR deltaG deltaB 0
                    (dest, sourceOffset, row)
           in (None, target\<lparr>data := dest'\<rparr>))"

text \<open>The loops of \<^verbatim>\<open>blockRenderChar\<close>; the state is the bytes and the column, or the row.\<close>

function blockRenderChar_cols ::
  "int \<Rightarrow> rat \<Rightarrow> rat \<Rightarrow> rat \<Rightarrow> int \<Rightarrow> u8 list \<times> int \<Rightarrow> u8 list \<times> int" where
  "blockRenderChar_cols charWidth colorR colorG colorB x (dest, column) =
     (if x < charWidth then
        let dest1 = u8c_set dest column (Some colorR);
            dest2 = u8c_set dest1 (column + 1) (Some colorG);
            dest3 = u8c_set dest2 (column + 2) (Some colorB)
        in blockRenderChar_cols charWidth colorR colorG colorB (x + 1) (dest3, column + 4)
      else (dest, column))"
  by pat_completeness auto
termination
  by (relation "measure (\<lambda>(charWidth, cR, cG, cB, x, s). nat (charWidth - x))") auto

declare blockRenderChar_cols.simps [simp del]

function blockRenderChar_rows ::
  "int \<Rightarrow> int \<Rightarrow> int \<Rightarrow> rat \<Rightarrow> rat \<Rightarrow> rat \<Rightarrow> int \<Rightarrow> u8 list \<times> int \<Rightarrow> u8 list \<times> int" where
  "blockRenderChar_rows charWidth charHeight destWidth colorR colorG colorB y (dest, row) =
     (if y < charHeight then
        let column = row;
            (dest', column') = blockRenderChar_cols charWidth colorR colorG colorB 0 (dest, column)
        in blockRenderChar_rows charWidth charHeight destWidth colorR colorG colorB (y + 1)
             (dest', row + destWidth)
      else (dest, row))"
  by pat_completeness auto
termination
  by (relation "measure (\<lambda>(charWidth, charHeight, destWidth, cR, cG, cB, y, s). nat (charHeight - y))")
    auto

declare blockRenderChar_rows.simps [simp del]

definition blockRenderChar ::
  "MinimapCharRenderer \<Rightarrow> ImageData \<Rightarrow> int \<Rightarrow> int \<Rightarrow> RGBA8 \<Rightarrow> RGBA8 \<Rightarrow> bool \<Rightarrow>
   string option \<times> ImageData" where
  "blockRenderChar this target dx dy color backgroundColor useLighterFont =
     (let charWidth = x1_CHAR_WIDTH * scale this;
          charHeight = x1_CHAR_HEIGHT * scale this
      in if dx + charWidth > int (width target) \<or> dy + charHeight > int (height target)
         then (Some ''bad render request outside image data'', target)
         else
           let destWidth = int (width target) * RGBA_CHANNELS_CNT;
               c = 1 / 2;
               backgroundR = num8 (rgba8_r backgroundColor);
               backgroundG = num8 (rgba8_g backgroundColor);
               backgroundB = num8 (rgba8_b backgroundColor);
               deltaR = num8 (rgba8_r color) - backgroundR;
               deltaG = num8 (rgba8_g color) - backgroundG;
               deltaB = num8 (rgba8_b color) - backgroundB;
               colorR = backgroundR + deltaR * c;
               colorG = backgroundG + deltaG * c;
               colorB = backgroundB + deltaB * c;
               dest = data target;
               row = dy * destWidth + dx * RGBA_CHANNELS_CNT;
               (dest', row') =
                  blockRenderChar_rows charWidth charHeight destWidth colorR colorG colorB 0
                    (dest, row)
           in (None, target\<lparr>data := dest'\<rparr>))"


subsection \<open>Notions used to state the properties\<close>

text \<open>The palette entry that \<^verbatim>\<open>_updateColorMap\<close> computes from an entry of the upstream map.\<close>

definition palette_entry :: "Color \<Rightarrow> RGBA8" where
  "palette_entry c =
     new_RGBA8 (rgba_r (rgba c)) (rgba_g (rgba c)) (rgba_b (rgba c))
       (Math_round (rgba_a (rgba c) * 255))"

text \<open>The call passes the bounds check of \<^verbatim>\<open>renderChar\<close> and \<^verbatim>\<open>blockRenderChar\<close>.\<close>

definition fits :: "MinimapCharRenderer \<Rightarrow> ImageData \<Rightarrow> int \<Rightarrow> int \<Rightarrow> bool" where
  "fits this target dx dy \<longleftrightarrow>
     dx + x1_CHAR_WIDTH * scale this \<le> int (width target) \<and>
     dy + x1_CHAR_HEIGHT * scale this \<le> int (height target)"

text \<open>An \<^verbatim>\<open>ImageData\<close> holds four bytes for each of its pixels.\<close>

definition wf_ImageData :: "ImageData \<Rightarrow> bool" where
  "wf_ImageData target \<longleftrightarrow> length (data target) = 4 * width target * height target"

text \<open>The index of byte \<open>k\<close> (0 red, 1 green, 2 blue, 3 alpha) of the pixel at \<open>(px, py)\<close>.\<close>

definition byte_index :: "ImageData \<Rightarrow> int \<Rightarrow> int \<Rightarrow> nat \<Rightarrow> nat" where
  "byte_index target px py k = nat (RGBA_CHANNELS_CNT * (py * int (width target) + px)) + k"

text \<open>
  The byte at index \<open>i\<close> belongs to a pixel of the scaled cell whose top-left corner
  is \<open>(dx, dy)\<close>.
\<close>

definition in_cell :: "MinimapCharRenderer \<Rightarrow> ImageData \<Rightarrow> int \<Rightarrow> int \<Rightarrow> nat \<Rightarrow> bool" where
  "in_cell this target dx dy i \<longleftrightarrow>
     (let p = int (i div 4); px = p mod int (width target); py = p div int (width target)
      in dx \<le> px \<and> px < dx + x1_CHAR_WIDTH * scale this \<and>
         dy \<le> py \<and> py < dy + x1_CHAR_HEIGHT * scale this)"

text \<open>Channel \<open>k\<close> of a colour: 0 red, 1 green, otherwise blue.\<close>

definition chan :: "nat \<Rightarrow> RGBA8 \<Rightarrow> u8" where
  "chan k c = (if k = 0 then rgba8_r c else if k = 1 then rgba8_g c else rgba8_b c)"

text \<open>
  The byte stored for a channel: background plus (foreground minus background) times
  \<open>c\<close>, through \<open>ToUint8Clamp\<close>.
\<close>

definition mix :: "u8 \<Rightarrow> u8 \<Rightarrow> rat option \<Rightarrow> u8" where
  "mix background foreground c = ToUint8Clamp (blend (num8 background) (num8 foreground - num8 background) c)"

text \<open>The atlas that \<^verbatim>\<open>renderChar\<close> samples, and the offset of the sample for cell position \<open>(x, y)\<close>.\<close>

definition atlas :: "MinimapCharRenderer \<Rightarrow> bool \<Rightarrow> u8 list" where
  "atlas this useLighterFont = (if useLighterFont then charDataLight this else charDataNormal this)"

definition glyph_offset :: "MinimapCharRenderer \<Rightarrow> int \<Rightarrow> int \<Rightarrow> int \<Rightarrow> int" where
  "glyph_offset this chCode x y =
     getChIndex chCode * (x1_CHAR_WIDTH * scale this) * (x1_CHAR_HEIGHT * scale this)
       + y * (x1_CHAR_WIDTH * scale this) + x"

text \<open>The target's bytes after a call.\<close>

definition rendered ::
  "MinimapCharRenderer \<Rightarrow> ImageData \<Rightarrow> int \<Rightarrow> int \<Rightarrow> int \<Rightarrow> RGBA8 \<Rightarrow> RGBA8 \<Rightarrow> bool \<Rightarrow> u8 list" where
  "rendered this target dx dy chCode color backgroundColor useLighterFont =
     data (snd (renderChar this target dx dy chCode color backgroundColor useLighterFont))"

definition block_rendered ::
  "MinimapCharRenderer \<Rightarrow> ImageData \<Rightarrow> int \<Rightarrow> int \<Rightarrow> RGBA8 \<Rightarrow> RGBA8 \<Rightarrow> bool \<Rightarrow> u8 list" where
  "block_rendered this target dx dy color backgroundColor useLighterFont =
     data (snd (blockRenderChar this target dx dy color backgroundColor useLighterFont))"

subsection \<open>The stores of a call as a list\<close>

text \<open>
  A call of \<^verbatim>\<open>renderChar\<close> or \<^verbatim>\<open>blockRenderChar\<close> performs a sequence of stores
  (index, byte) that does not depend on the target's bytes. \<open>row_writes\<close> lists the
  stores of one run of the inner loop, \<open>cell_writes\<close> those of the outer loop;
  \<open>px so k\<close> is the byte stored for channel \<open>k\<close> at atlas offset \<open>so\<close>.
\<close>

definition apply_writes :: "(int \<times> u8) list \<Rightarrow> u8 list \<Rightarrow> u8 list" where
  "apply_writes ws dest = fold (\<lambda>(i, v) d. put d i v) ws dest"

fun row_writes :: "(int \<Rightarrow> nat \<Rightarrow> u8) \<Rightarrow> nat \<Rightarrow> int \<Rightarrow> int \<Rightarrow> (int \<times> u8) list" where
  "row_writes px 0 so col = []"
| "row_writes px (Suc n) so col =
     [(col, px so 0), (col + 1, px so 1), (col + 2, px so 2)] @ row_writes px n (so + 1) (col + 4)"

fun cell_writes ::
  "(int \<Rightarrow> nat \<Rightarrow> u8) \<Rightarrow> nat \<Rightarrow> nat \<Rightarrow> int \<Rightarrow> int \<Rightarrow> int \<Rightarrow> (int \<times> u8) list" where
  "cell_writes px cw 0 dw so row = []"
| "cell_writes px cw (Suc m) dw so row =
     row_writes px cw so row @ cell_writes px cw m dw (so + int cw) (row + dw)"

definition glyph_byte ::
  "u8 list \<Rightarrow> rat \<Rightarrow> rat \<Rightarrow> rat \<Rightarrow> rat \<Rightarrow> rat \<Rightarrow> rat \<Rightarrow> int \<Rightarrow> nat \<Rightarrow> u8" where
  "glyph_byte charData bR bG bB dR dG dB so k =
     ToUint8Clamp (blend (if k = 0 then bR else if k = 1 then bG else bB)
                         (if k = 0 then dR else if k = 1 then dG else dB)
                         (sample charData so))"

definition block_byte :: "rat \<Rightarrow> rat \<Rightarrow> rat \<Rightarrow> int \<Rightarrow> nat \<Rightarrow> u8" where
  "block_byte cR cG cB so k = ToUint8Clamp (Some (if k = 0 then cR else if k = 1 then cG else cB))"

definition renderChar_writes ::
  "MinimapCharRenderer \<Rightarrow> ImageData \<Rightarrow> int \<Rightarrow> int \<Rightarrow> int \<Rightarrow> RGBA8 \<Rightarrow> RGBA8 \<Rightarrow> bool \<Rightarrow>
   (int \<times> u8) list" where
  "renderChar_writes this target dx dy chCode color backgroundColor useLighterFont =
     cell_writes
       (glyph_byte (atlas this useLighterFont)
          (num8 (rgba8_r backgroundColor)) (num8 (rgba8_g backgroundColor))
          (num8 (rgba8_b backgroundColor))
          (num8 (rgba8_r color) - num8 (rgba8_r backgroundColor))
          (num8 (rgba8_g color) - num8 (rgba8_g backgroundColor))
          (num8 (rgba8_b color) - num8 (rgba8_b backgroundColor)))
       (nat (x1_CHAR_WIDTH * scale this)) (nat (x1_CHAR_HEIGHT * scale this))
       (int (width target) * RGBA_CHANNELS_CNT)
       (getChIndex chCode * (x1_CHAR_WIDTH * scale this) * (x1_CHAR_HEIGHT * scale this))
       (dy * (int (width target) * RGBA_CHANNELS_CNT) + dx * RGBA_CHANNELS_CNT)"

definition blockRenderChar_writes ::
  "MinimapCharRenderer \<Rightarrow> ImageData \<Rightarrow> int \<Rightarrow> int \<Rightarrow> RGBA8 \<Rightarrow> RGBA8 \<Rightarrow> (int \<times> u8) list" where
  "blockRenderChar_writes this target dx dy color backgroundColor =
     cell_writes
       (block_byte
          (num8 (rgba8_r backgroundColor) + (num8 (rgba8_r color) - num8 (rgba8_r backgroundColor)) * (1 / 2))
          (num8 (rgba8_g backgroundColor) + (num8 (rgba8_g color) - num8 (rgba8_g backgroundColor)) * (1 / 2))
          (num8 (rgba8_b backgroundColor) + (num8 (rgba8_b color) - num8 (rgba8_b backgroundColor)) * (1 / 2)))
       (nat (x1_CHAR_WIDTH * scale this)) (nat (x1_CHAR_HEIGHT * scale this))
       (int (width target) * RGBA_CHANNELS_CNT) 0
       (dy * (int (width target) * RGBA_CHANNELS_CNT) + dx * RGBA_CHANNELS_CNT)"


subsection \<open>Example inputs\<close>

text \<open>A tracker before its first rebuild, an upstream colour map with the three basic
  entries, and a stand-in for the luminance utility.\<close>

definition example_tracker :: tracker where
  "example_tracker = \<lparr>colors = [], backgroundIsLight = False, fired = []\<rparr>"

definition example_colorMap :: "Color list" where
  "example_colorMap =
     [\<lparr>rgba = \<lparr>rgba_r = 0, rgba_g = 0, rgba_b = 0, rgba_a = 0\<rparr>\<rparr>,
      \<lparr>rgba = \<lparr>rgba_r = 212, rgba_g = 212, rgba_b = 212, rgba_a = 1\<rparr>\<rparr>,
      \<lparr>rgba = \<lparr>rgba_r = 30, rgba_g = 30, rgba_b = 30, rgba_a = 1\<rparr>\<rparr>]"

definition example_luminance :: "Color \<Rightarrow> rat" where
  "example_luminance c = of_int (rgba_g (rgba c)) / 255"

text \<open>A renderer at scale 1 whose atlases hold the cells of two glyphs, a target of
  2 by 2 pixels, and two colours.\<close>

definition example_renderer :: MinimapCharRenderer where
  "example_renderer = \<lparr>charDataNormal = [0, 255, 128, 51], charDataLight = [0, 255, 102, 17], scale = 1\<rparr>"

definition example_target :: ImageData where
  "example_target =
     \<lparr>width = 2, height = 2,
      data = [10, 11, 12, 13, 20, 21, 22, 23, 30, 31, 32, 33, 40, 41, 42, 43]\<rparr>"

definition example_color :: RGBA8 where
  "example_color = \<lparr>rgba8_r = 200, rgba8_g = 100, rgba8_b = 50, rgba8_a = 255\<rparr>"

definition example_background :: RGBA8 where
  "example_background = \<lparr>rgba8_r = 100, rgba8_g = 60, rgba8_b = 41, rgba8_a = 255\<rparr>"

text \<open>
  A renderer built by the constructor from a source atlas; and a renderer at scale 2 with
  the cell of one glyph, for a target that is one pixel wide.
\<close>

definition example_built_renderer :: MinimapCharRenderer where
  "example_built_renderer = new_MinimapCharRenderer [0, 255, 160, 64] 1"

definition example_wide_renderer :: MinimapCharRenderer where
  "example_wide_renderer =
     \<lparr>charDataNormal = [10, 0, 255, 30, 40, 50, 60, 70],
      charDataLight = [10, 0, 255, 30, 40, 50, 60, 70], scale = 2\<rparr>"

definition example_narrow_target :: ImageData where
  "example_narrow_target =
     \<lparr>width = 1, height = 4,
      data = [10, 11, 12, 13, 20, 21, 22, 23, 30, 31, 32, 33, 40, 41, 42, 43]\<rparr>"

section \<open>Properties of the loops\<close>

subsection \<open>The palette loop\<close>

lemma array_set_length: "array_set xs (length xs) v = xs @ [Some v]"
  by (simp add: array_set_def)

lemma updateColorMap_loop_append:
  "colorId = length cs \<Longrightarrow>
   updateColorMap_loop cm colorId cs = cs @ map (\<lambda>c. Some (palette_entry c)) (drop colorId cm)"
proof (induction cm colorId cs rule: updateColorMap_loop.induct)
  case (1 colorMap colorId cs)
  show ?case
  proof (cases "colorId < length colorMap")
    case True
    have d: "drop (length cs) colorMap = colorMap ! length cs # drop (Suc (length cs)) colorMap"
      using True "1.prems" by (simp add: Cons_nth_drop_Suc)
    show ?thesis
      using True "1.prems" "1.IH" [OF True refl]
      by (subst updateColorMap_loop.simps) (simp add: array_set_length d palette_entry_def Let_def)
  next
    case False
    then show ?thesis
      by (subst updateColorMap_loop.simps) simp
  qed
qed

lemma updateColorMap_loop_palette:
  "updateColorMap_loop cm 1 [Some RGBA8_Empty] = Some RGBA8_Empty # map (\<lambda>c. Some (palette_entry c)) (tl cm)"
  by (simp add: updateColorMap_loop_append drop_Suc)

subsection \<open>Sequences of stores\<close>

lemma apply_writes_Nil [simp]: "apply_writes [] d = d"
  by (simp add: apply_writes_def)

lemma apply_writes_Cons [simp]: "apply_writes ((i, v) # ws) d = apply_writes ws (put d i v)"
  by (simp add: apply_writes_def)

lemma apply_writes_append [simp]: "apply_writes (ws @ ws') d = apply_writes ws' (apply_writes ws d)"
  by (simp add: apply_writes_def)

lemma length_put [simp]: "length (put d i v) = length d"
  by (simp add: put_def)

lemma length_apply_writes [simp]: "length (apply_writes ws d) = length d"
  by (induction ws arbitrary: d) auto

lemma nth_put_other: "int j \<noteq> i \<Longrightarrow> put d i v ! j = d ! j"
  by (auto simp: put_def)

lemma nth_put_same: "j < length d \<Longrightarrow> put d (int j) v ! j = v"
  by (auto simp: put_def)

lemma apply_writes_unwritten:
  "int j \<notin> fst ` set ws \<Longrightarrow> apply_writes ws d ! j = d ! j"
  by (induction ws arbitrary: d) (auto simp: nth_put_other)

lemma apply_writes_written:
  "(int j, v) \<in> set ws \<Longrightarrow> \<forall>u. (int j, u) \<in> set ws \<longrightarrow> u = v \<Longrightarrow> j < length d \<Longrightarrow>
   apply_writes ws d ! j = v"
proof (induction ws arbitrary: d)
  case Nil
  then show ?case by simp
next
  case (Cons w ws)
  obtain i u where w: "w = (i, u)" by (cases w)
  have uniq: "\<forall>u. (int j, u) \<in> set ws \<longrightarrow> u = v"
    using Cons.prems(2) by auto
  have len: "j < length (put d i u)"
    using Cons.prems(3) by simp
  show ?case
  proof (cases "int j \<in> fst ` set ws")
    case True
    then obtain u' where m: "(int j, u') \<in> set ws" by auto
    with uniq have "u' = v" by blast
    with m have "(int j, v) \<in> set ws" by simp
    then have "apply_writes ws (put d i u) ! j = v"
      using uniq len by (rule Cons.IH)
    then show ?thesis
      unfolding w by simp
  next
    case False
    then have "(int j, v) \<notin> set ws" by force
    with Cons.prems(1) have "(int j, v) = w" by simp
    then have iu: "i = int j" "u = v" using w by simp_all
    have "apply_writes ws (put d i u) ! j = put d i u ! j"
      using False by (rule apply_writes_unwritten)
    also have "\<dots> = v"
      unfolding iu using Cons.prems(3) by (rule nth_put_same)
    finally show ?thesis
      unfolding w by simp
  qed
qed

lemma apply_writes_cases:
  "apply_writes ws d ! j = d ! j \<or> (\<exists>v. (int j, v) \<in> set ws \<and> apply_writes ws d ! j = v)"
proof (induction ws arbitrary: d)
  case Nil
  then show ?case by simp
next
  case (Cons w ws)
  obtain i u where w: "w = (i, u)" by (cases w)
  from Cons.IH [of "put d i u"] show ?case
  proof
    assume a: "apply_writes ws (put d i u) ! j = put d i u ! j"
    show ?thesis
    proof (cases "i = int j \<and> j < length d")
      case True
      then show ?thesis using a w by (auto simp: nth_put_same)
    next
      case False
      then have "put d i u ! j = d ! j" by (auto simp: put_def)
      then show ?thesis using a w by simp
    qed
  next
    assume "\<exists>v. (int j, v) \<in> set ws \<and> apply_writes ws (put d i u) ! j = v"
    then show ?thesis using w by auto
  qed
qed

lemma put_put_same: "put (put d i v) i u = put d i u"
  by (auto simp: put_def)

lemma put_put_swap: "i \<noteq> j \<Longrightarrow> put (put d i v) j u = put (put d j u) i v"
  by (auto simp: put_def list_update_swap)

lemma put_apply_writes_absorb:
  "put (apply_writes ws (put d i v)) i u = put (apply_writes ws d) i u"
proof (induction ws arbitrary: d)
  case Nil
  then show ?case by (simp add: put_put_same)
next
  case (Cons w ws)
  obtain j x where w: "w = (j, x)" by (cases w)
  show ?case
  proof (cases "i = j")
    case True
    then show ?thesis using w by (simp add: put_put_same)
  next
    case False
    then have "put (put d i v) j x = put (put d j x) i v" by (rule put_put_swap)
    then show ?thesis using w Cons.IH [of "put d j x"] by simp
  qed
qed

lemma apply_writes_idem: "apply_writes ws (apply_writes ws d) = apply_writes ws d"
proof (induction ws arbitrary: d rule: rev_induct)
  case Nil
  then show ?case by simp
next
  case (snoc w ws)
  obtain i v where w: "w = (i, v)" by (cases w)
  have "apply_writes (ws @ [w]) (apply_writes (ws @ [w]) d)
        = put (apply_writes ws (put (apply_writes ws d) i v)) i v"
    using w by simp
  also have "\<dots> = put (apply_writes ws (apply_writes ws d)) i v"
    by (rule put_apply_writes_absorb)
  also have "\<dots> = put (apply_writes ws d) i v"
    by (simp add: snoc.IH)
  finally show ?case using w by simp
qed


lemma nat_diff_step: "x < (n::int) \<Longrightarrow> nat (n - x) = Suc (nat (n - (x + 1)))"
  by simp

lemma renderChar_cols_writes:
  "renderChar_cols cd cw bR bG bB dR dG dB x (dest, so, col) =
     (apply_writes (row_writes (glyph_byte cd bR bG bB dR dG dB) (nat (cw - x)) so col) dest,
      so + int (nat (cw - x)), col + 4 * int (nat (cw - x)))"
proof (induction cd cw bR bG bB dR dG dB x "(dest, so, col)" arbitrary: dest so col
       rule: renderChar_cols.induct)
  case (1 cd cw bR bG bB dR dG dB x dest so col)
  show ?case
  proof (cases "x < cw")
    case True
    note step = nat_diff_step [OF True]
    show ?thesis
      apply (subst renderChar_cols.simps)
      apply (simp only: True if_True Let_def)
      apply (subst "1.hyps" [OF True refl refl refl refl])
      apply (simp add: step u8c_set_def glyph_byte_def)
      done
  next
    case False
    then show ?thesis
      by (subst renderChar_cols.simps) simp
  qed
qed

lemma blockRenderChar_cols_writes:
  "blockRenderChar_cols cw cR cG cB x (dest, col) =
     (apply_writes (row_writes (block_byte cR cG cB) (nat (cw - x)) so col) dest,
      col + 4 * int (nat (cw - x)))"
proof (induction cw cR cG cB x "(dest, col)" arbitrary: dest so col
       rule: blockRenderChar_cols.induct)
  case (1 cw cR cG cB x dest col)
  show ?case
  proof (cases "x < cw")
    case True
    note step = nat_diff_step [OF True]
    show ?thesis
      apply (subst blockRenderChar_cols.simps)
      apply (simp only: True if_True Let_def)
      apply (subst "1.hyps" [OF True refl refl refl, of "so + 1"])
      apply (simp add: step u8c_set_def block_byte_def)
      done
  next
    case False
    then show ?thesis
      by (subst blockRenderChar_cols.simps) simp
  qed
qed


lemma renderChar_rows_writes:
  "renderChar_rows cd cw ch dw bR bG bB dR dG dB y (dest, so, row) =
     (apply_writes (cell_writes (glyph_byte cd bR bG bB dR dG dB) (nat cw) (nat (ch - y)) dw so row) dest,
      so + int (nat cw) * int (nat (ch - y)), row + dw * int (nat (ch - y)))"
proof (induction cd cw ch dw bR bG bB dR dG dB y "(dest, so, row)" arbitrary: dest so row
       rule: renderChar_rows.induct)
  case (1 cd cw ch dw bR bG bB dR dG dB y dest so row)
  show ?case
  proof (cases "y < ch")
    case True
    note step = nat_diff_step [OF True]
    have r: "renderChar_cols cd cw bR bG bB dR dG dB 0 (dest, so, row) =
               (apply_writes (row_writes (glyph_byte cd bR bG bB dR dG dB) (nat cw) so row) dest,
                so + int (nat cw), row + 4 * int (nat cw))"
      using renderChar_cols_writes [of cd cw bR bG bB dR dG dB 0 dest so row] by simp
    note IH = "1.hyps" [OF True refl refl r [symmetric] refl]
    show ?thesis
      apply (subst renderChar_rows.simps)
      apply (simp only: True if_True Let_def r prod.case IH)
      apply (simp add: step algebra_simps)
      done
  next
    case False
    then show ?thesis
      by (subst renderChar_rows.simps) simp
  qed
qed

lemma blockRenderChar_rows_writes:
  "blockRenderChar_rows cw ch dw cR cG cB y (dest, row) =
     (apply_writes (cell_writes (block_byte cR cG cB) (nat cw) (nat (ch - y)) dw so row) dest,
      row + dw * int (nat (ch - y)))"
proof (induction cw ch dw cR cG cB y "(dest, row)" arbitrary: dest so row
       rule: blockRenderChar_rows.induct)
  case (1 cw ch dw cR cG cB y dest row)
  show ?case
  proof (cases "y < ch")
    case True
    note step = nat_diff_step [OF True]
    have r: "blockRenderChar_cols cw cR cG cB 0 (dest, row) =
               (apply_writes (row_writes (block_byte cR cG cB) (nat cw) so row) dest,
                row + 4 * int (nat cw))"
      using blockRenderChar_cols_writes [of cw cR cG cB 0 dest row so] by simp
    note IH = "1.hyps" [OF True refl refl r [symmetric], of "so + int (nat cw)"]
    show ?thesis
      apply (subst blockRenderChar_rows.simps)
      apply (simp only: True if_True Let_def r prod.case IH)
      apply (simp add: step algebra_simps)
      done
  next
    case False
    then show ?thesis
      by (subst blockRenderChar_rows.simps) simp
  qed
qed

lemma ex_less_3: "(\<exists>k<3::nat. P k) \<longleftrightarrow> P 0 \<or> P 1 \<or> P 2"
proof
  assume "\<exists>k<3. P k"
  then obtain k where k: "k < 3" "P k" by blast
  then have "k = 0 \<or> k = 1 \<or> k = 2" by linarith
  with k show "P 0 \<or> P 1 \<or> P 2" by blast
next
  assume "P 0 \<or> P 1 \<or> P 2"
  moreover have "(0::nat) < 3" "(1::nat) < 3" "(2::nat) < 3" by simp_all
  ultimately show "\<exists>k<3. P k" by blast
qed

lemma set_row_writes:
  "(i, v) \<in> set (row_writes px n so col) \<longleftrightarrow>
   (\<exists>x<n. \<exists>k<3. i = col + 4 * int x + int k \<and> v = px (so + int x) k)"
proof (induction n arbitrary: so col)
  case 0
  then show ?case by simp
next
  case (Suc n)
  note k3 = ex_less_3
  have xs: "\<And>P. (\<exists>x<Suc n. P x) \<longleftrightarrow> P 0 \<or> (\<exists>x<n. P (Suc x))"
    by (auto simp: less_Suc_eq_0_disj)
  show ?case
    apply (simp only: row_writes.simps set_append Un_iff Suc.IH)
    apply (subst xs)
    apply (simp add: k3 algebra_simps)
    done
qed

lemma set_cell_writes:
  "(i, v) \<in> set (cell_writes px cw m dw so row) \<longleftrightarrow>
   (\<exists>y<m. \<exists>x<cw. \<exists>k<3. i = row + int y * dw + 4 * int x + int k
                       \<and> v = px (so + int y * int cw + int x) k)"
proof (induction m arbitrary: so row)
  case 0
  then show ?case by simp
next
  case (Suc m)
  have ys: "\<And>P. (\<exists>y<Suc m. P y) \<longleftrightarrow> P 0 \<or> (\<exists>y<m. P (Suc y))"
    by (auto simp: less_Suc_eq_0_disj)
  show ?case
    apply (simp only: cell_writes.simps set_append Un_iff Suc.IH set_row_writes)
    apply (subst ys)
    apply (simp add: algebra_simps)
    done
qed

subsection \<open>Bytes and clamping\<close>

lemma unat_word_of_int_byte: "0 \<le> f \<Longrightarrow> f < 256 \<Longrightarrow> unat (word_of_int f :: u8) = nat f"
  by (simp add: unat_eq_nat_uint uint_word_of_int)

lemma unat_byte_le: "unat (v :: u8) \<le> 255"
proof -
  have "unat v < 2 ^ LENGTH(8)" by (rule unsigned_less)
  then show ?thesis by simp
qed

lemma num8_nonneg: "0 \<le> num8 v"
  unfolding num8_def by (rule of_nat_0_le_iff)

lemma num8_le: "num8 v \<le> 255"
proof -
  have "(of_nat (unat v) :: rat) \<le> of_nat 255"
    using unat_byte_le by (rule of_nat_mono)
  then show ?thesis unfolding num8_def by simp
qed

lemma floor_num8: "\<lfloor>num8 v\<rfloor> = int (unat v)"
  unfolding num8_def by (rule floor_of_nat)

lemma num8_of_int: "num8 v = of_int (int (unat v))"
  unfolding num8_def by simp

lemma word_of_int_unat_byte: "word_of_int (int (unat v)) = (v :: u8)"
  by simp

lemma num8_0: "num8 0 = 0"
  unfolding num8_def by simp

lemma num8_255: "num8 255 = 255"
  unfolding num8_def by simp

lemma num8_le_iff: "num8 a \<le> num8 b \<longleftrightarrow> a \<le> b"
  unfolding num8_def word_le_nat_alt by (rule of_nat_le_iff)

lemma ToUint8Clamp_num8: "ToUint8Clamp (Some (num8 v)) = v"
proof -
  consider "unat v = 0" | "unat v = 255" | "0 < unat v" "unat v < 255"
    using unat_byte_le [of v] by linarith
  then show ?thesis
  proof cases
    case 1
    then have "v = 0" by (simp add: unat_eq_zero)
    then show ?thesis by (simp add: ToUint8Clamp_def num8_0)
  next
    case 2
    then have "unat v = unat (255 :: u8)" by simp
    then have "v = 255" by (rule word_unat_eq_iff [THEN iffD2])
    then show ?thesis by (simp add: ToUint8Clamp_def num8_255)
  next
    case 3
    have lt: "num8 v < 255"
    proof -
      have "(of_nat (unat v) :: rat) < of_nat 255" using 3(2) by (rule of_nat_less_iff [THEN iffD2])
      then show ?thesis unfolding num8_def by simp
    qed
    have gt: "0 < num8 v"
      unfolding num8_def using 3(1) by (rule of_nat_0_less_iff [THEN iffD2])
    have fl: "of_int \<lfloor>num8 v\<rfloor> = num8 v"
      by (simp only: floor_num8 num8_of_int [symmetric])
    show ?thesis
      using lt gt
      by (simp add: ToUint8Clamp_def Let_def fl) (simp add: floor_num8)
  qed
qed

lemma ToUint8Clamp_le:
  assumes "x \<le> num8 v"
  shows "ToUint8Clamp (Some x) \<le> v"
proof -
  consider "x \<le> 0" | "0 < x" "255 \<le> x" | "0 < x" "x < 255"
    by linarith
  then show ?thesis
  proof cases
    case 1
    then show ?thesis by (simp add: ToUint8Clamp_def)
  next
    case 2
    with assms num8_le [of v] have "num8 v = num8 255" by (simp add: num8_255)
    then have "num8 255 \<le> num8 v" by simp
    then have "255 \<le> v" by (simp only: num8_le_iff)
    then show ?thesis using 2 by (simp add: ToUint8Clamp_def)
  next
    case 3
    define f where "f = \<lfloor>x\<rfloor>"
    have f0: "0 \<le> f" using 3(1) by (simp add: f_def)
    have f255: "f < 255" using 3(2) by (simp add: f_def floor_less_iff)
    have fv: "f \<le> int (unat v)"
    proof -
      have "\<lfloor>x\<rfloor> \<le> \<lfloor>num8 v\<rfloor>" using assms by (rule floor_mono)
      then show ?thesis by (simp add: f_def floor_num8)
    qed
    have f256: "f < 256" "f + 1 < 256" "0 \<le> f + 1" using f0 f255 by simp_all
    have "nat f \<le> unat v" using fv f0 by linarith
    then have low: "(word_of_int f :: u8) \<le> v"
      unfolding word_le_nat_alt unat_word_of_int_byte [OF f0 f256(1)] .
    have high: "(word_of_int (f + 1) :: u8) \<le> v" if "of_int f < x"
    proof -
      have "of_int f < num8 v" using that assms by simp
      then have "of_int f < (of_int (int (unat v)) :: rat)" by (simp only: num8_of_int)
      then have "f < int (unat v)" by (simp only: of_int_less_iff)
      then have "nat (f + 1) \<le> unat v" using f0 by linarith
      then show ?thesis
        unfolding word_le_nat_alt unat_word_of_int_byte [OF f256(3) f256(2)] .
    qed
    show ?thesis
      using 3 low high
      by (auto simp add: ToUint8Clamp_def Let_def f_def [symmetric])
  qed
qed

subsection \<open>The calls as sequences of stores\<close>

lemma renderChar_eq:
  "renderChar this target dx dy chCode color bg l =
     (if fits this target dx dy
      then (None, target\<lparr>data := apply_writes (renderChar_writes this target dx dy chCode color bg l) (data target)\<rparr>)
      else (Some ''bad render request outside image data'', target))"
  by (simp add: renderChar_def fits_def Let_def renderChar_rows_writes renderChar_writes_def atlas_def
        not_less [symmetric])

lemma blockRenderChar_eq:
  "blockRenderChar this target dx dy color bg l =
     (if fits this target dx dy
      then (None, target\<lparr>data := apply_writes (blockRenderChar_writes this target dx dy color bg) (data target)\<rparr>)
      else (Some ''bad render request outside image data'', target))"
  by (simp add: blockRenderChar_def fits_def Let_def blockRenderChar_rows_writes [where so = 0]
        blockRenderChar_writes_def not_less [symmetric])

lemma glyph_byte_mix:
  "k < 3 \<Longrightarrow>
   glyph_byte cd (num8 (rgba8_r bg)) (num8 (rgba8_g bg)) (num8 (rgba8_b bg))
     (num8 (rgba8_r color) - num8 (rgba8_r bg)) (num8 (rgba8_g color) - num8 (rgba8_g bg))
     (num8 (rgba8_b color) - num8 (rgba8_b bg)) so k
   = mix (chan k bg) (chan k color) (sample cd so)"
  by (simp add: glyph_byte_def mix_def chan_def)

lemma block_byte_mix:
  "k < 3 \<Longrightarrow>
   block_byte (num8 (rgba8_r bg) + (num8 (rgba8_r color) - num8 (rgba8_r bg)) * (1 / 2))
     (num8 (rgba8_g bg) + (num8 (rgba8_g color) - num8 (rgba8_g bg)) * (1 / 2))
     (num8 (rgba8_b bg) + (num8 (rgba8_b color) - num8 (rgba8_b bg)) * (1 / 2)) so k
   = mix (chan k bg) (chan k color) (Some (1 / 2))"
  by (simp add: block_byte_def mix_def chan_def blend_def)

lemma int_nat_of_less: "x < nat c \<Longrightarrow> int (nat c) = c"
  by simp

lemma in_renderChar_writes:
  "(i, v) \<in> set (renderChar_writes this target dx dy chCode color bg l) \<longleftrightarrow>
   (\<exists>y<nat (x1_CHAR_HEIGHT * scale this). \<exists>x<nat (x1_CHAR_WIDTH * scale this). \<exists>k<3.
      i = 4 * ((dy + int y) * int (width target) + dx + int x) + int k \<and>
      v = mix (chan k bg) (chan k color) (sample (atlas this l) (glyph_offset this chCode (int x) (int y))))"
  unfolding renderChar_writes_def set_cell_writes
  apply (intro iff_exI conj_cong refl)
  subgoal for y x k
    by (simp add: RGBA_CHANNELS_CNT_def algebra_simps)
  subgoal premises prems for y x k
  proof -
    have cw: "int (nat (x1_CHAR_WIDTH * scale this)) = x1_CHAR_WIDTH * scale this"
      using prems(2) by (rule int_nat_of_less)
    have k: "k < 3" by (rule prems(3))
    show ?thesis
      by (simp only: glyph_byte_mix [OF k] glyph_offset_def cw)
  qed
  done


lemma in_blockRenderChar_writes:
  "(i, v) \<in> set (blockRenderChar_writes this target dx dy color bg) \<longleftrightarrow>
   (\<exists>y<nat (x1_CHAR_HEIGHT * scale this). \<exists>x<nat (x1_CHAR_WIDTH * scale this). \<exists>k<3.
      i = 4 * ((dy + int y) * int (width target) + dx + int x) + int k \<and>
      v = mix (chan k bg) (chan k color) (Some (1 / 2)))"
  unfolding blockRenderChar_writes_def set_cell_writes
  apply (intro iff_exI conj_cong refl)
  subgoal for y x k
    by (simp add: RGBA_CHANNELS_CNT_def algebra_simps)
  subgoal premises prems for y x k
  proof -
    have k: "k < 3" by (rule prems(3))
    show ?thesis
      by (simp only: block_byte_mix [OF k])
  qed
  done

lemma rendered_eq:
  "rendered this target dx dy chCode color bg l =
     (if fits this target dx dy
      then apply_writes (renderChar_writes this target dx dy chCode color bg l) (data target)
      else data target)"
  by (simp add: rendered_def renderChar_eq)

lemma block_rendered_eq:
  "block_rendered this target dx dy color bg l =
     (if fits this target dx dy
      then apply_writes (blockRenderChar_writes this target dx dy color bg) (data target)
      else data target)"
  by (simp add: block_rendered_def blockRenderChar_eq)

subsection \<open>Arithmetic of pixel indices\<close>

lemma channel_unique:
  fixes a b :: int
  assumes "4 * a + int k = 4 * b + int k'" "k < 3" "k' < 3"
  shows "a = b \<and> k = k'"
  using assms by presburger

lemma row_unique:
  fixes a b x x' w :: int
  assumes e: "a * w + x = b * w + x'" and d: "\<bar>x - x'\<bar> < w"
  shows "a = b \<and> x = x'"
proof -
  have ab: "(a - b) * w = x' - x"
    using e by (simp add: algebra_simps)
  have w: "0 < w" using d by linarith
  have "a = b"
  proof (rule ccontr)
    assume "a \<noteq> b"
    then have "1 \<le> \<bar>a - b\<bar>" by simp
    then have "1 * w \<le> \<bar>a - b\<bar> * w"
      using w by (intro mult_right_mono) simp_all
    also have "\<bar>a - b\<bar> * w = \<bar>(a - b) * w\<bar>"
      using w by (simp add: abs_mult)
    also have "\<dots> = \<bar>x - x'\<bar>"
      unfolding ab by simp
    finally show False using d by simp
  qed
  with e show ?thesis by simp
qed

lemma pixel_in_image:
  fixes p q w h :: int
  assumes "0 \<le> p" "p < w" "0 \<le> q" "q < h"
  shows "0 \<le> q * w + p \<and> q * w + p < h * w"
proof -
  have "(q + 1) * w \<le> h * w"
    using assms by (intro mult_right_mono) simp_all
  then have "q * w + p < h * w"
    using assms by (simp add: algebra_simps)
  moreover have "0 \<le> q * w" using assms by simp
  ultimately show ?thesis using assms by simp
qed

lemma pixel_coordinates:
  fixes p q w :: int
  assumes "0 \<le> p" "p < w"
  shows "(q * w + p) mod w = p \<and> (q * w + p) div w = q"
  using assms by simp

subsection \<open>Softening\<close>

lemma soften_loop_map:
  "length result = length input \<Longrightarrow> i \<le> length input \<Longrightarrow>
   soften_loop input ratio i result
     = take i result @ map (\<lambda>v. ToUint8Clamp (Some (num8 v * ratio))) (drop i input)"
proof (induction input ratio i result rule: soften_loop.induct)
  case (1 input ratio i result)
  show ?case
  proof (cases "i < length input")
    case True
    let ?f = "\<lambda>v. ToUint8Clamp (Some (num8 v * ratio))"
    let ?r = "result[i := ?f (input ! i)]"
    have s: "u8c_set result (int i) (Some (num8 (input ! i) * ratio)) = ?r"
      using True "1.prems" by (simp add: u8c_set_def put_def)
    have "soften_loop input ratio i result = soften_loop input ratio (i + 1) ?r"
      using True by (subst soften_loop.simps) (simp add: s)
    also have "\<dots> = take (i + 1) ?r @ map ?f (drop (i + 1) input)"
      using True "1.prems" "1.IH" [OF True] by (simp add: s)
    also have "take (i + 1) ?r = take i result @ [?f (input ! i)]"
      using True "1.prems" by (simp add: take_Suc_conv_app_nth)
    also have "(take i result @ [?f (input ! i)]) @ map ?f (drop (i + 1) input)
                 = take i result @ map ?f (drop i input)"
      using True by (simp add: Cons_nth_drop_Suc [symmetric])
    finally show ?thesis .
  next
    case False
    with "1.prems" show ?thesis
      by (subst soften_loop.simps) simp
  qed
qed

lemma soften_map: "soften input ratio = map (\<lambda>v. ToUint8Clamp (Some (num8 v * ratio))) input"
  by (simp add: soften_def soften_loop_map)

lemma soften_le:
  assumes "0 \<le> ratio" "ratio \<le> 1"
  shows "list_all2 (\<lambda>d s. d \<le> s) (soften input ratio) input"
proof -
  have "ToUint8Clamp (Some (num8 v * ratio)) \<le> v" for v
  proof (rule ToUint8Clamp_le)
    show "num8 v * ratio \<le> num8 v"
      using assms(2) num8_nonneg [of v] by (rule mult_left_le)
  qed
  then show ?thesis
    by (simp add: soften_map list_all2_map1 list_all2_same)
qed

subsection \<open>A call on the target it produced\<close>

lemma renderChar_writes_data:
  "renderChar_writes this (target\<lparr>data := d\<rparr>) dx dy chCode color bg l
     = renderChar_writes this target dx dy chCode color bg l"
  by (simp add: renderChar_writes_def)

lemma fits_data: "fits this (target\<lparr>data := d\<rparr>) dx dy = fits this target dx dy"
  by (simp add: fits_def)

subsection \<open>The bytes after a call\<close>

lemma written_index_mod:
  assumes "int i = 4 * P + int k" "k < 3"
  shows "i mod 4 = k" "int (i div 4) = P"
proof -
  have "int (i mod 4) = int i mod 4" by (simp add: zmod_int)
  also have "\<dots> = int k" using assms by simp
  finally show "i mod 4 = k" by simp
  have "int (i div 4) = int i div 4" by (simp add: zdiv_int)
  also have "\<dots> = P" using assms by simp
  finally show "int (i div 4) = P" .
qed

lemma rendered_alpha:
  assumes "i mod 4 = 3"
  shows "rendered this target dx dy chCode color bg l ! i = data target ! i"
proof (cases "fits this target dx dy")
  case True
  have "int i \<notin> fst ` set (renderChar_writes this target dx dy chCode color bg l)"
  proof
    assume "int i \<in> fst ` set (renderChar_writes this target dx dy chCode color bg l)"
    then obtain v where "(int i, v) \<in> set (renderChar_writes this target dx dy chCode color bg l)"
      by force
    then obtain y x k where "k < 3"
      "int i = 4 * ((dy + int y) * int (width target) + dx + int x) + int k"
      unfolding in_renderChar_writes by blast
    then have "i mod 4 = k" by (intro written_index_mod(1))
    with \<open>k < 3\<close> assms show False by simp
  qed
  then show ?thesis
    using True by (simp add: rendered_eq apply_writes_unwritten)
next
  case False
  then show ?thesis by (simp add: rendered_eq)
qed

lemma rendered_cases:
  "rendered this target dx dy chCode color bg l ! i = data target ! i \<or>
   (\<exists>k<3. \<exists>s. i mod 4 = k \<and>
      rendered this target dx dy chCode color bg l ! i
        = mix (chan k bg) (chan k color) (sample (atlas this l) s))"
proof (cases "fits this target dx dy")
  case True
  let ?W = "renderChar_writes this target dx dy chCode color bg l"
  have r: "rendered this target dx dy chCode color bg l = apply_writes ?W (data target)"
    using True by (simp add: rendered_eq)
  from apply_writes_cases [of ?W "data target" i] show ?thesis
  proof
    assume "apply_writes ?W (data target) ! i = data target ! i"
    then show ?thesis by (simp add: r)
  next
    assume "\<exists>v. (int i, v) \<in> set ?W \<and> apply_writes ?W (data target) ! i = v"
    then obtain v where v: "(int i, v) \<in> set ?W" "apply_writes ?W (data target) ! i = v"
      by blast
    from v(1) obtain y x k where k: "k < 3"
      and i: "int i = 4 * ((dy + int y) * int (width target) + dx + int x) + int k"
      and vv: "v = mix (chan k bg) (chan k color)
                 (sample (atlas this l) (glyph_offset this chCode (int x) (int y)))"
      unfolding in_renderChar_writes by blast
    from i k have "i mod 4 = k" by (intro written_index_mod(1))
    with k v(2) vv r show ?thesis by auto
  qed
next
  case False
  then show ?thesis by (simp add: rendered_eq)
qed


text \<open>The pixel at cell position \<open>(x, y)\<close>, when it lies in the image.\<close>

lemma cell_pixel:
  assumes fits: "fits this target dx dy"
    and wf: "wf_ImageData target"
    and x: "0 \<le> x" "x < x1_CHAR_WIDTH * scale this"
    and y: "0 \<le> y" "y < x1_CHAR_HEIGHT * scale this"
    and inside: "0 \<le> dx + x" "0 \<le> dy + y"
  shows "int (byte_index target (dx + x) (dy + y) k)
           = 4 * ((dy + int (nat y)) * int (width target) + dx + int (nat x)) + int k"
    and "k \<le> 3 \<Longrightarrow> byte_index target (dx + x) (dy + y) k < length (data target)"
    and "nat y < nat (x1_CHAR_HEIGHT * scale this)" "nat x < nat (x1_CHAR_WIDTH * scale this)"
proof -
  let ?w = "int (width target)" and ?h = "int (height target)"
  have px: "dx + x < ?w" and py: "dy + y < ?h"
    using fits x y by (simp_all add: fits_def)
  from pixel_in_image [OF inside(1) px inside(2) py]
  have p: "0 \<le> (dy + y) * ?w + (dx + x)" "(dy + y) * ?w + (dx + x) < ?h * ?w"
    by simp_all
  show i: "int (byte_index target (dx + x) (dy + y) k)
           = 4 * ((dy + int (nat y)) * int (width target) + dx + int (nat x)) + int k"
    using p(1) x(1) y(1) by (simp add: byte_index_def RGBA_CHANNELS_CNT_def algebra_simps)
  show "byte_index target (dx + x) (dy + y) k < length (data target)" if "k \<le> 3"
  proof -
    have "4 * ((dy + y) * ?w + (dx + x)) + int k < 4 * (?h * ?w)"
      using p(2) that by simp
    also have "4 * (?h * ?w) = int (length (data target))"
      using wf by (simp add: wf_ImageData_def)
    finally have "int (byte_index target (dx + x) (dy + y) k) < int (length (data target))"
      using i x(1) y(1) by (simp add: algebra_simps)
    then show ?thesis by simp
  qed
  show "nat y < nat (x1_CHAR_HEIGHT * scale this)" using y by simp
  show "nat x < nat (x1_CHAR_WIDTH * scale this)" using x by simp
qed

lemma block_rendered_pixel:
  assumes fits: "fits this target dx dy"
    and wf: "wf_ImageData target"
    and x: "0 \<le> x" "x < x1_CHAR_WIDTH * scale this"
    and y: "0 \<le> y" "y < x1_CHAR_HEIGHT * scale this"
    and inside: "0 \<le> dx + x" "0 \<le> dy + y"
    and k: "k < 3"
  shows "block_rendered this target dx dy color bg l ! byte_index target (dx + x) (dy + y) k
           = mix (chan k bg) (chan k color) (Some (1 / 2))"
proof -
  let ?W = "blockRenderChar_writes this target dx dy color bg"
  let ?j = "byte_index target (dx + x) (dy + y) k"
  let ?v = "mix (chan k bg) (chan k color) (Some (1 / 2))"
  note cp = cell_pixel [OF fits wf x y inside]
  have m: "(int ?j, ?v) \<in> set ?W"
    unfolding in_blockRenderChar_writes using cp(1) [of k] cp(3,4) k by blast
  have u: "\<forall>u. (int ?j, u) \<in> set ?W \<longrightarrow> u = ?v"
  proof (intro allI impI)
    fix u assume "(int ?j, u) \<in> set ?W"
    then obtain y' x' k' where k': "k' < 3"
      and j: "int ?j = 4 * ((dy + int y') * int (width target) + dx + int x') + int k'"
      and u: "u = mix (chan k' bg) (chan k' color) (Some (1 / 2))"
      unfolding in_blockRenderChar_writes by blast
    from j k' have "?j mod 4 = k'" by (intro written_index_mod(1))
    moreover from cp(1) [of k] k have "?j mod 4 = k" by (intro written_index_mod(1))
    ultimately show "u = ?v" using u by simp
  qed
  have len: "?j < length (data target)"
    using k by (intro cp(2)) simp
  have "apply_writes ?W (data target) ! ?j = ?v"
    using m u len by (rule apply_writes_written)
  then show ?thesis
    using fits by (simp add: block_rendered_eq)
qed

lemma rendered_pixel:
  assumes fits: "fits this target dx dy"
    and wf: "wf_ImageData target"
    and cw: "x1_CHAR_WIDTH * scale this \<le> int (width target)"
    and x: "0 \<le> x" "x < x1_CHAR_WIDTH * scale this"
    and y: "0 \<le> y" "y < x1_CHAR_HEIGHT * scale this"
    and inside: "0 \<le> dx + x" "0 \<le> dy + y"
    and k: "k < 3"
  shows "rendered this target dx dy chCode color bg l ! byte_index target (dx + x) (dy + y) k
           = mix (chan k bg) (chan k color) (sample (atlas this l) (glyph_offset this chCode x y))"
proof -
  let ?W = "renderChar_writes this target dx dy chCode color bg l"
  let ?j = "byte_index target (dx + x) (dy + y) k"
  let ?v = "mix (chan k bg) (chan k color) (sample (atlas this l) (glyph_offset this chCode x y))"
  let ?w = "int (width target)"
  note cp = cell_pixel [OF fits wf x y inside]
  have xy: "int (nat x) = x" "int (nat y) = y" using x(1) y(1) by simp_all
  have m: "(int ?j, ?v) \<in> set ?W"
    unfolding in_renderChar_writes
    apply (rule exI [of _ "nat y"], rule conjI [OF cp(3)])
    apply (rule exI [of _ "nat x"], rule conjI [OF cp(4)])
    apply (rule exI [of _ k], rule conjI [OF k])
    apply (rule conjI [OF cp(1)])
    apply (simp only: xy)
    done
  have u: "\<forall>u. (int ?j, u) \<in> set ?W \<longrightarrow> u = ?v"
  proof (intro allI impI)
    fix u assume "(int ?j, u) \<in> set ?W"
    then obtain y' x' k' where k': "k' < 3"
      and x': "x' < nat (x1_CHAR_WIDTH * scale this)"
      and j: "int ?j = 4 * ((dy + int y') * ?w + dx + int x') + int k'"
      and u: "u = mix (chan k' bg) (chan k' color)
                    (sample (atlas this l) (glyph_offset this chCode (int x') (int y')))"
      unfolding in_renderChar_writes by blast
    have e: "4 * ((dy + int y') * ?w + dx + int x') + int k'
               = 4 * ((dy + y) * ?w + dx + x) + int k"
      unfolding j [symmetric] by (rule cp(1) [of k, unfolded xy])
    from channel_unique [OF e k' k]
    have kk: "k' = k" and pp: "(dy + int y') * ?w + dx + int x' = (dy + y) * ?w + dx + x"
      by simp_all
    have x'i: "int x' < x1_CHAR_WIDTH * scale this"
      using x' by linarith
    have d: "\<bar>int x' - x\<bar> < ?w"
      using x x'i cw by linarith
    have "(dy + int y') * ?w + int x' = (dy + y) * ?w + x"
      using pp by simp
    from row_unique [OF this d]
    have "int y' = y" "int x' = x" by simp_all
    with u kk show "u = ?v" by simp
  qed
  have len: "?j < length (data target)"
    using k by (intro cp(2)) simp
  have "apply_writes ?W (data target) ! ?j = ?v"
    using m u len by (rule apply_writes_written)
  then show ?thesis
    using fits by (simp add: rendered_eq)
qed

lemma written_in_cell:
  assumes fits: "fits this target dx dy" and dx: "0 \<le> dx"
    and y: "y < nat (x1_CHAR_HEIGHT * scale this)" and x: "x < nat (x1_CHAR_WIDTH * scale this)"
    and k: "k < 3"
    and i: "int i = 4 * ((dy + int y) * int (width target) + dx + int x) + int k"
  shows "in_cell this target dx dy i"
proof -
  let ?w = "int (width target)"
  have xi: "int x < x1_CHAR_WIDTH * scale this" using x by linarith
  have yi: "int y < x1_CHAR_HEIGHT * scale this" using y by linarith
  have fw: "dx + x1_CHAR_WIDTH * scale this \<le> ?w" using fits by (simp add: fits_def)
  have p: "int (i div 4) = (dy + int y) * ?w + (dx + int x)"
    using written_index_mod(2) [OF i k] by simp
  have b: "0 \<le> dx + int x" "dx + int x < ?w" using dx xi fw by linarith+
  from pixel_coordinates [OF b, of "dy + int y"]
  have "((dy + int y) * ?w + (dx + int x)) mod ?w = dx + int x"
       "((dy + int y) * ?w + (dx + int x)) div ?w = dy + int y"
    by simp_all
  then show ?thesis
    unfolding in_cell_def Let_def p using xi yi by simp
qed

lemma rendered_outside:
  assumes "fits this target dx dy" "0 \<le> dx" "\<not> in_cell this target dx dy i"
  shows "rendered this target dx dy chCode color bg l ! i = data target ! i"
proof -
  have "int i \<notin> fst ` set (renderChar_writes this target dx dy chCode color bg l)"
  proof
    assume "int i \<in> fst ` set (renderChar_writes this target dx dy chCode color bg l)"
    then obtain v where "(int i, v) \<in> set (renderChar_writes this target dx dy chCode color bg l)"
      by force
    then obtain y x k where "y < nat (x1_CHAR_HEIGHT * scale this)"
      "x < nat (x1_CHAR_WIDTH * scale this)" "k < 3"
      "int i = 4 * ((dy + int y) * int (width target) + dx + int x) + int k"
      unfolding in_renderChar_writes by blast
    with assms(1,2) have "in_cell this target dx dy i" by (rule written_in_cell)
    with assms(3) show False by simp
  qed
  then show ?thesis
    using assms(1) by (simp add: rendered_eq apply_writes_unwritten)
qed

lemma block_rendered_outside:
  assumes "fits this target dx dy" "0 \<le> dx" "\<not> in_cell this target dx dy i"
  shows "block_rendered this target dx dy color bg l ! i = data target ! i"
proof -
  have "int i \<notin> fst ` set (blockRenderChar_writes this target dx dy color bg)"
  proof
    assume "int i \<in> fst ` set (blockRenderChar_writes this target dx dy color bg)"
    then obtain v where "(int i, v) \<in> set (blockRenderChar_writes this target dx dy color bg)"
      by force
    then obtain y x k where "y < nat (x1_CHAR_HEIGHT * scale this)"
      "x < nat (x1_CHAR_WIDTH * scale this)" "k < 3"
      "int i = 4 * ((dy + int y) * int (width target) + dx + int x) + int k"
      unfolding in_blockRenderChar_writes by blast
    with assms(1,2) have "in_cell this target dx dy i" by (rule written_in_cell)
    with assms(3) show False by simp
  qed
  then show ?thesis
    using assms(1) by (simp add: block_rendered_eq apply_writes_unwritten)
qed

lemma mix_intensity_0: "mix b f (Some (num8 0 / 255)) = b"
  by (simp add: mix_def blend_def num8_0 ToUint8Clamp_num8)

lemma mix_intensity_255: "mix b f (Some (num8 255 / 255)) = f"
  by (simp add: mix_def blend_def num8_255 ToUint8Clamp_num8)

lemma mix_intensity:
  "mix b f (Some (num8 v / 255))
     = ToUint8Clamp (Some (num8 b + (num8 f - num8 b) * (num8 v / 255)))"
  by (simp only: mix_def blend_def option.map)

lemma length_rendered:
  "length (rendered this target dx dy chCode color bg l) = length (data target)"
  by (simp add: rendered_eq)

lemma alpha_index_mod: "byte_index target px py 3 mod 4 = 3"
proof -
  define P where "P = py * int (width target) + px"
  have "nat (4 * P) = 4 * nat P"
    by (cases "0 \<le> P") (simp_all add: nat_mult_distrib)
  then have "byte_index target px py 3 = 4 * nat P + 3"
    by (simp add: byte_index_def RGBA_CHANNELS_CNT_def P_def)
  then show ?thesis by simp
qed

lemma sample_intensity:
  "atlas_read charData s = Some v \<Longrightarrow> sample charData s = Some (num8 v / 255)"
  by (simp add: sample_def)

subsection \<open>The example inputs\<close>

lemma round_to_double_exact: "\<bar>n\<bar> < 2 ^ 53 \<Longrightarrow> round_to_double n = n"
  by (simp add: round_to_double_def Let_def)

lemma getChIndex_mod:
  assumes "- 63 \<le> chCode" "chCode \<le> 2 ^ 53"
  shows "getChIndex chCode = (chCode - 32) mod 95"
proof -
  have small: "\<bar>chCode - 32\<bar> < 2 ^ 53"
    using assms by simp
  have c1: "round_to_double (chCode - START_CH_CODE) = chCode - 32"
    unfolding START_CH_CODE_def using small by (rule round_to_double_exact)
  show ?thesis
  proof (cases "chCode < 32")
    case True
    have "\<bar>chCode - 32 + CHAR_COUNT\<bar> < (2 :: int) ^ 53"
      using True assms(1) by (simp add: CHAR_COUNT_def END_CH_CODE_def START_CH_CODE_def)
    then have c2: "round_to_double (chCode - 32 + CHAR_COUNT) = chCode - 32 + CHAR_COUNT"
      by (rule round_to_double_exact)
    have "chCode - 32 = (chCode + 63) + (- 1) * 95" by simp
    then have "(chCode - 32) mod 95 = (chCode + 63) mod 95"
      by (simp only: mod_mult_self1)
    also have "\<dots> = chCode + 63"
      using True assms(1) by (intro mod_pos_pos_trivial) simp_all
    finally have m: "(chCode - 32) mod 95 = chCode + 63" .
    have "getChIndex chCode = js_rem (chCode - 32 + CHAR_COUNT) CHAR_COUNT"
      unfolding getChIndex_def Let_def c1 using True by (simp only: c2) simp
    also have "\<dots> = chCode + 63"
      using True assms(1)
      by (auto simp add: js_rem_def START_CH_CODE_def CHAR_COUNT_def END_CH_CODE_def sgn_if)
    finally show ?thesis using m by simp
  next
    case False
    have "getChIndex chCode = js_rem (chCode - 32) CHAR_COUNT"
      unfolding getChIndex_def Let_def c1 using False by simp
    also have "\<dots> = (chCode - 32) mod 95"
      using False
      by (auto simp add: js_rem_def START_CH_CODE_def CHAR_COUNT_def END_CH_CODE_def sgn_if)
    finally show ?thesis .
  qed
qed

lemma getChIndex_32: "getChIndex 32 = 0"
  using getChIndex_mod [of 32] by simp

lemma getChIndex_33: "getChIndex 33 = 1"
  using getChIndex_mod [of 33] by simp

lemma example_fits: "fits example_renderer example_target 1 0"
  by (simp add: fits_def example_renderer_def example_target_def x1_CHAR_WIDTH_def x1_CHAR_HEIGHT_def)

lemma example_wf: "wf_ImageData example_target"
  by (simp add: wf_ImageData_def example_target_def)

lemma example_built_atlas: "charDataNormal example_built_renderer = [0, 204, 128, 51]"
  by code_simp

lemma example_built_fits: "fits example_built_renderer example_target 1 0"
  by code_simp

text \<open>The two calls on the example inputs, evaluated.\<close>

lemma rendered_example: "rendered example_renderer example_target 1 0 32 example_color example_background False
   = [10, 11, 12, 13, 100, 60, 41, 23, 30, 31, 32, 33, 200, 100, 50, 43]"
  by code_simp

lemma block_rendered_example: "block_rendered example_renderer example_target 1 0 example_color example_background False
   = [10, 11, 12, 13, 150, 80, 46, 23, 30, 31, 32, 33, 150, 80, 46, 43]"
  by code_simp

section \<open>The colour tracker\<close>

lemma floor_rat_numeral [simp]:
  "\<lfloor>(numeral a :: rat) / numeral b\<rfloor> = numeral a div numeral b"
  using floor_divide_of_int_eq [of "numeral a" "numeral b", where ?'a = rat] by simp

lemma getColor_substitutes:
  "colorId < 1 \<or> int (length (colors this)) \<le> colorId \<Longrightarrow>
   getColor DefaultBackground this colorId = array_get (colors this) DefaultBackground"
  by (simp add: getColor_def)

lemma getColor_undefined_short_palette:
  "1 \<le> DefaultBackground \<Longrightarrow>
   getColor DefaultBackground (snd (updateColorMap DefaultBackground lum None this)) colorId = None"
  by (auto simp add: updateColorMap_def getColor_def array_get_def)

lemma getColor_defined_after_rebuild:
  assumes "updateColorMap DefaultBackground lum (Some cm) this = (Returned, this')"
  shows "\<exists>c. getColor DefaultBackground this' colorId = Some c"
proof -
  from assms obtain bg where bg: "colorMap_get cm DefaultBackground = Some bg"
    by (auto simp add: updateColorMap_def Let_def split: option.splits)
  then have db: "0 \<le> DefaultBackground" "DefaultBackground < int (length cm)"
    by (simp_all add: colorMap_get_def split: if_splits)
  then have ne: "cm \<noteq> []" by auto
  let ?P = "Some RGBA8_Empty # map (\<lambda>c. Some (palette_entry c)) (tl cm)"
  have cs: "colors this' = ?P"
    using assms bg
    by (auto simp add: updateColorMap_def Let_def fire_def
          updateColorMap_loop_palette [unfolded One_nat_def])
  have len: "length ?P = length cm" using ne by (cases cm) simp_all
  have all: "\<exists>c. ?P ! n = Some c" if "n < length cm" for n
    using that ne by (cases n) simp_all
  define i where "i = (if colorId < 1 \<or> int (length (colors this')) \<le> colorId
                      then DefaultBackground else colorId)"
  have "0 \<le> i" "i < int (length cm)"
    using db by (auto simp add: i_def cs len)
  then have "nat i < length cm" by simp
  from all [OF this] obtain c where "?P ! nat i = Some c" ..
  then have "array_get (colors this') i = Some c"
    using \<open>0 \<le> i\<close> \<open>i < int (length cm)\<close> by (simp add: array_get_def cs len)
  then show ?thesis
    by (auto simp add: getColor_def i_def Let_def)
qed

text \<open>
  C1. The claim: for every identifier below 1 or not below the palette's length,
  \<^verbatim>\<open>getColor\<close> returns the colour of the default-background identifier, and for every
  identifier it returns a defined colour without reading outside the palette.
  The substitution holds (\<open>getColor_substitutes\<close>), the second part does not: after a
  rebuild from an absent colour map the palette has the single entry 0, and \<^verbatim>\<open>getColor\<close>
  reads index \<^verbatim>\<open>ColorId.DefaultBackground\<close> of it, outside the palette, and returns
  \<^verbatim>\<open>undefined\<close>. The theorem evaluates the code there, with 2 for the enum member;
  \<open>getColor_undefined_short_palette\<close> shows the same for every value from 1 on.
\<close>

theorem getColor_undefined_after_absent_map:
  "fst (updateColorMap 2 example_luminance None example_tracker) = Returned \<and>
   colors (snd (updateColorMap 2 example_luminance None example_tracker)) = [Some RGBA8_Empty] \<and>
   getColor 2 (snd (updateColorMap 2 example_luminance None example_tracker)) 1 = None"
  by (simp add: updateColorMap_def getColor_def array_get_def)

text \<open>
  C2, as amended. Whenever a palette rebuild runs and the upstream colour map is absent
  (\<^verbatim>\<open>null\<close>), the rebuild returns, the palette becomes the single-entry palette holding
  the sentinel, and \<^verbatim>\<open>backgroundIsLight()\<close> becomes true.
\<close>

theorem updateColorMap_absent:
  "fst (updateColorMap DefaultBackground lum None this) = Returned \<and>
   colors (snd (updateColorMap DefaultBackground lum None this)) = [Some RGBA8_Empty] \<and>
   backgroundIsLight (snd (updateColorMap DefaultBackground lum None this)) = True"
  by (simp add: updateColorMap_def)

text \<open>
  The claim as stated also covers an empty colour map, and has \<^verbatim>\<open>getColor\<close> return the
  sentinel afterwards. An empty array is not \<^verbatim>\<open>null\<close>: the rebuild takes the other
  branch and throws at \<^verbatim>\<open>colorMap[ColorId.DefaultBackground]\<close>. After the rebuild from an
  absent map \<^verbatim>\<open>getColor\<close> returns \<^verbatim>\<open>undefined\<close>, as under C1.
\<close>

theorem updateColorMap_empty_map_counterexample:
  "fst (updateColorMap 2 example_luminance (Some []) example_tracker) = TypeError \<and>
   getColor 2 (snd (updateColorMap 2 example_luminance None example_tracker)) 7 = None"
  by (simp add: updateColorMap_def colorMap_get_def getColor_def array_get_def)

text \<open>
  C3, as amended. A palette rebuild from a colour map that has an entry at the
  default-background identifier returns and fires the change event exactly once, and the
  palette and the flag that the event's listeners read are the new ones: the sentinel
  followed by the converted entries, and whether the luminance of the default
  background is at least one half. A rebuild from an absent colour map fires no event.
\<close>

theorem updateColorMap_fires_once:
  assumes "colorMap_get cm DefaultBackground = Some bg"
  shows "fst (updateColorMap DefaultBackground lum (Some cm) this) = Returned \<and>
         colors (snd (updateColorMap DefaultBackground lum (Some cm) this))
           = Some RGBA8_Empty # map (\<lambda>c. Some (palette_entry c)) (tl cm) \<and>
         backgroundIsLight (snd (updateColorMap DefaultBackground lum (Some cm) this))
           = (1 / 2 \<le> lum bg) \<and>
         fired (snd (updateColorMap DefaultBackground lum (Some cm) this))
           = fired this @ [(Some RGBA8_Empty # map (\<lambda>c. Some (palette_entry c)) (tl cm), 1 / 2 \<le> lum bg)] \<and>
         fired (snd (updateColorMap DefaultBackground lum None this)) = fired this"
  using assms
  by (simp add: updateColorMap_def Let_def fire_def updateColorMap_loop_palette [unfolded One_nat_def])

theorem updateColorMap_fires_once_witness:
  "colorMap_get example_colorMap 2 = Some (example_colorMap ! 2) \<and>
   fst (updateColorMap 2 example_luminance (Some example_colorMap) example_tracker) = Returned \<and>
   colors (snd (updateColorMap 2 example_luminance (Some example_colorMap) example_tracker))
     = [Some RGBA8_Empty,
        Some \<lparr>rgba8_r = 212, rgba8_g = 212, rgba8_b = 212, rgba8_a = 255\<rparr>,
        Some \<lparr>rgba8_r = 30, rgba8_g = 30, rgba8_b = 30, rgba8_a = 255\<rparr>] \<and>
   backgroundIsLight (snd (updateColorMap 2 example_luminance (Some example_colorMap) example_tracker)) = False \<and>
   fired (snd (updateColorMap 2 example_luminance (Some example_colorMap) example_tracker))
     = [([Some RGBA8_Empty,
          Some \<lparr>rgba8_r = 212, rgba8_g = 212, rgba8_b = 212, rgba8_a = 255\<rparr>,
          Some \<lparr>rgba8_r = 30, rgba8_g = 30, rgba8_b = 30, rgba8_a = 255\<rparr>], False)]"
proof -
  have h: "colorMap_get example_colorMap 2 = Some (example_colorMap ! 2)"
    by (simp add: colorMap_get_def example_colorMap_def)
  show ?thesis
    using h updateColorMap_fires_once [OF h, of example_luminance example_tracker]
    by (simp add: example_colorMap_def example_tracker_def example_luminance_def palette_entry_def
          new_RGBA8_def clamp8_def Math_round_def)
qed

text \<open>The claim as stated has the event fire also when the colour map is absent.\<close>

theorem updateColorMap_absent_fires_nothing_counterexample:
  "fst (updateColorMap 2 example_luminance None example_tracker) = Returned \<and>
   fired (snd (updateColorMap 2 example_luminance None example_tracker)) = []"
  by (simp add: updateColorMap_def example_tracker_def)

section \<open>The character renderer\<close>

subsection \<open>Glyph selection\<close>

lemma char_constants: "START_CH_CODE = 32" "CHAR_COUNT = 95"
  by (simp_all add: START_CH_CODE_def CHAR_COUNT_def END_CH_CODE_def)

lemma getChIndex_31: "getChIndex 31 = 94"
  using getChIndex_mod [of 31] by simp

lemma getChIndex_126: "getChIndex 126 = 94"
  using getChIndex_mod [of 126] by simp

lemma getChIndex_127: "getChIndex 127 = 0"
  using getChIndex_mod [of 127] by simp

lemma bitlen_example: "bitlen (288230376151711776) = 59"
  by (simp add: bitlen.simps)

lemma power_58: "(2::int) ^ 58 = 288230376151711744" by simp

lemma round_to_double_tie: "round_to_double (2 ^ 58 + 32) = 2 ^ 58"
  by (simp add: round_to_double_def bitlen_example Let_def)

lemma round_to_double_example: "round_to_double (2 ^ 58 + 64) = 2 ^ 58 + 64"
  by (simp add: round_to_double_def bitlen.simps Let_def)

lemma getChIndex_rounded: "getChIndex (2 ^ 58 + 64) = 54"
  by (simp add: getChIndex_def START_CH_CODE_def CHAR_COUNT_def END_CH_CODE_def round_to_double_tie [simplified] js_rem_def Let_def)

text \<open>
  C4, as amended. For every integer character code from -63 up to 2^53, which covers
  every code unit 0..65535, \<^verbatim>\<open>renderChar\<close> selects the glyph at atlas index
  (chCode - 32) mod 95 with the mathematical modulo, an index in [0, 94]; code 31
  selects the same glyph as code 126, and code 127 the same glyph as code 32.
\<close>

theorem getChIndex_wraps:
  "(- 63 \<le> chCode \<and> chCode \<le> 2 ^ 53 \<longrightarrow>
      getChIndex chCode = (chCode - START_CH_CODE) mod CHAR_COUNT \<and>
      0 \<le> getChIndex chCode \<and> getChIndex chCode \<le> 94) \<and>
   getChIndex 31 = getChIndex 126 \<and> getChIndex 127 = getChIndex 32 \<and>
   renderChar this target dx dy 31 color backgroundColor useLighterFont
     = renderChar this target dx dy 126 color backgroundColor useLighterFont \<and>
   renderChar this target dx dy 127 color backgroundColor useLighterFont
     = renderChar this target dx dy 32 color backgroundColor useLighterFont"
proof -
  have r: "0 \<le> (chCode - 32) mod 95" "(chCode - 32) mod 95 \<le> 94"
    by simp_all
  have a: "- 63 \<le> chCode \<and> chCode \<le> 2 ^ 53 \<longrightarrow>
      getChIndex chCode = (chCode - START_CH_CODE) mod CHAR_COUNT \<and>
      0 \<le> getChIndex chCode \<and> getChIndex chCode \<le> 94"
  proof
    assume h: "- 63 \<le> chCode \<and> chCode \<le> 2 ^ 53"
    then have "getChIndex chCode = (chCode - 32) mod 95"
      by (intro getChIndex_mod) simp_all
    with r show "getChIndex chCode = (chCode - START_CH_CODE) mod CHAR_COUNT \<and>
      0 \<le> getChIndex chCode \<and> getChIndex chCode \<le> 94"
      unfolding char_constants by simp
  qed
  have b: "getChIndex 31 = getChIndex 126" "getChIndex 127 = getChIndex 32"
    unfolding getChIndex_31 getChIndex_126 getChIndex_127 getChIndex_32 by simp_all
  have d: "renderChar this target dx dy 31 color backgroundColor useLighterFont
             = renderChar this target dx dy 126 color backgroundColor useLighterFont"
    unfolding renderChar_def b(1) ..
  have e: "renderChar this target dx dy 127 color backgroundColor useLighterFont
             = renderChar this target dx dy 32 color backgroundColor useLighterFont"
    unfolding renderChar_def b(2) ..
  from a b d e show ?thesis by blast
qed

theorem getChIndex_wraps_witness:
  "- 63 \<le> (- 63 :: int) \<and> (- 63 :: int) \<le> 2 ^ 53 \<and>
   getChIndex (- 63) = (- 63 - START_CH_CODE) mod CHAR_COUNT \<and> getChIndex (- 63) = 0 \<and>
   - 63 \<le> (9007199254740992 :: int) \<and> (9007199254740992 :: int) \<le> 2 ^ 53 \<and>
   getChIndex 9007199254740992 = (9007199254740992 - START_CH_CODE) mod CHAR_COUNT \<and>
   getChIndex 9007199254740992 = 35"
proof -
  have h0: "- 63 \<le> (- 63 :: int) \<and> (- 63 :: int) \<le> 2 ^ 53" by simp
  have h1: "- 63 \<le> (9007199254740992 :: int) \<and> (9007199254740992 :: int) \<le> 2 ^ 53" by simp
  note t0 = getChIndex_wraps [of "- 63", THEN conjunct1, THEN mp, OF h0]
  note t1 = getChIndex_wraps [of 9007199254740992, THEN conjunct1, THEN mp, OF h1]
  have v0: "(- 63 - START_CH_CODE) mod CHAR_COUNT = 0"
    by (simp add: char_constants)
  have v1: "(9007199254740992 - START_CH_CODE) mod CHAR_COUNT = 35"
    by (simp add: char_constants)
  from h0 h1 t0 t1 v0 v1 show ?thesis by simp
qed

text \<open>
  The claim as stated covers every integer. Below -63 the index is negative, and from
  2^58 on the subtraction of 32 is rounded: 2^58 + 64 is a double, 2^58 + 32 is not and
  becomes 2^58.
\<close>

theorem getChIndex_negative_counterexample:
  "getChIndex (- 64) = - 1 \<and> (- 64 - START_CH_CODE) mod CHAR_COUNT = 94 \<and>
   round_to_double (2 ^ 58 + 64) = 2 ^ 58 + 64 \<and>
   getChIndex (2 ^ 58 + 64) = 54 \<and> (2 ^ 58 + 64 - START_CH_CODE) mod CHAR_COUNT = 86"
proof -
  have "round_to_double (- 96) = - 96" "round_to_double (- 1) = - 1"
    by (simp_all add: round_to_double_exact)
  then have "getChIndex (- 64) = - 1"
    by (simp add: getChIndex_def START_CH_CODE_def CHAR_COUNT_def END_CH_CODE_def js_rem_def)
  moreover have "(- 64 - START_CH_CODE) mod CHAR_COUNT = 94"
    "(2 ^ 58 + 64 - START_CH_CODE) mod CHAR_COUNT = 86"
    by (simp_all add: START_CH_CODE_def CHAR_COUNT_def END_CH_CODE_def)
  ultimately show ?thesis using round_to_double_example getChIndex_rounded by simp
qed

subsection \<open>Rejected requests\<close>

text \<open>
  C5. A call of \<^verbatim>\<open>renderChar\<close> or \<^verbatim>\<open>blockRenderChar\<close> where \<open>dx\<close> plus the scaled cell
  width exceeds the target's width, or \<open>dy\<close> plus the scaled cell height exceeds the
  target's height, returns (with the diagnostic) and leaves the target unchanged.
\<close>

theorem rejected_request_unchanged:
  assumes "int (width target) < dx + x1_CHAR_WIDTH * scale this \<or>
           int (height target) < dy + x1_CHAR_HEIGHT * scale this"
  shows "renderChar this target dx dy chCode color backgroundColor useLighterFont
           = (Some ''bad render request outside image data'', target) \<and>
         blockRenderChar this target dx dy color backgroundColor useLighterFont
           = (Some ''bad render request outside image data'', target)"
  using assms by (auto simp add: renderChar_def blockRenderChar_def Let_def)

theorem rejected_request_unchanged_witness:
  "(int (width example_target) < 2 + x1_CHAR_WIDTH * scale example_renderer \<or>
    int (height example_target) < 0 + x1_CHAR_HEIGHT * scale example_renderer) \<and>
   renderChar example_renderer example_target 2 0 65 example_color example_background False
     = (Some ''bad render request outside image data'', example_target) \<and>
   blockRenderChar example_renderer example_target 2 0 example_color example_background False
     = (Some ''bad render request outside image data'', example_target)"
proof -
  have h: "int (width example_target) < 2 + x1_CHAR_WIDTH * scale example_renderer \<or>
           int (height example_target) < 0 + x1_CHAR_HEIGHT * scale example_renderer"
    by (simp add: example_target_def example_renderer_def x1_CHAR_WIDTH_def)
  show ?thesis
    using h rejected_request_unchanged [OF h, of 65 example_color example_background False]
    by simp
qed

subsection \<open>Blending\<close>

text \<open>
  C6, as amended. For a call of \<^verbatim>\<open>renderChar\<close> that passes the bounds check, no byte at
  an index congruent to 3 modulo 4 (an alpha byte) changes and the target keeps its
  length. If moreover the scaled cell is no wider than the target (as it is whenever
  \<open>dx\<close> is not negative), then for every cell position \<open>(x, y)\<close> whose pixel
  \<open>(dx + x, dy + y)\<close> lies in the image and whose sample the atlas in use holds, with
  intensity \<open>v\<close>, the red, green and blue bytes of that pixel are the background
  channel plus (foreground channel minus background channel) times \<open>v / 255\<close>, stored
  through \<open>ToUint8Clamp\<close>, and the pixel's alpha byte keeps its value; intensity 0 gives
  exactly the background's channels and intensity 255 exactly the foreground's.
\<close>

theorem renderChar_blends:
  assumes "fits this target dx dy"
  shows
    "(i mod 4 = 3 \<longrightarrow>
        rendered this target dx dy chCode color backgroundColor useLighterFont ! i = data target ! i) \<and>
     length (rendered this target dx dy chCode color backgroundColor useLighterFont)
       = length (data target) \<and>
     (x1_CHAR_WIDTH * scale this \<le> int (width target) \<and> wf_ImageData target \<and>
      0 \<le> x \<and> x < x1_CHAR_WIDTH * scale this \<and>
      0 \<le> y \<and> y < x1_CHAR_HEIGHT * scale this \<and> 0 \<le> dx + x \<and> 0 \<le> dy + y \<and> k < 3 \<and>
      atlas_read (atlas this useLighterFont) (glyph_offset this chCode x y) = Some v \<longrightarrow>
        rendered this target dx dy chCode color backgroundColor useLighterFont
            ! byte_index target (dx + x) (dy + y) k
          = ToUint8Clamp (Some (num8 (chan k backgroundColor)
              + (num8 (chan k color) - num8 (chan k backgroundColor)) * (num8 v / 255))) \<and>
        rendered this target dx dy chCode color backgroundColor useLighterFont
            ! byte_index target (dx + x) (dy + y) 3
          = data target ! byte_index target (dx + x) (dy + y) 3 \<and>
        (v = 0 \<longrightarrow>
           rendered this target dx dy chCode color backgroundColor useLighterFont
               ! byte_index target (dx + x) (dy + y) k
             = chan k backgroundColor) \<and>
        (v = 255 \<longrightarrow>
           rendered this target dx dy chCode color backgroundColor useLighterFont
               ! byte_index target (dx + x) (dy + y) k
             = chan k color))"
proof (intro conjI impI)
  assume "i mod 4 = 3"
  then show "rendered this target dx dy chCode color backgroundColor useLighterFont ! i = data target ! i"
    by (rule rendered_alpha)
next
  show "length (rendered this target dx dy chCode color backgroundColor useLighterFont)
       = length (data target)"
    by (rule length_rendered)
next
  assume h: "x1_CHAR_WIDTH * scale this \<le> int (width target) \<and> wf_ImageData target \<and>
      0 \<le> x \<and> x < x1_CHAR_WIDTH * scale this \<and>
      0 \<le> y \<and> y < x1_CHAR_HEIGHT * scale this \<and> 0 \<le> dx + x \<and> 0 \<le> dy + y \<and> k < 3 \<and>
      atlas_read (atlas this useLighterFont) (glyph_offset this chCode x y) = Some v"
  then have s: "sample (atlas this useLighterFont) (glyph_offset this chCode x y) = Some (num8 v / 255)"
    by (intro sample_intensity) simp
  have "rendered this target dx dy chCode color backgroundColor useLighterFont
            ! byte_index target (dx + x) (dy + y) k
          = mix (chan k backgroundColor) (chan k color)
              (sample (atlas this useLighterFont) (glyph_offset this chCode x y))"
    using h assms by (intro rendered_pixel) simp_all
  then have p: "rendered this target dx dy chCode color backgroundColor useLighterFont
            ! byte_index target (dx + x) (dy + y) k
          = mix (chan k backgroundColor) (chan k color) (Some (num8 v / 255))"
    unfolding s .
  show "rendered this target dx dy chCode color backgroundColor useLighterFont
            ! byte_index target (dx + x) (dy + y) k
          = ToUint8Clamp (Some (num8 (chan k backgroundColor)
              + (num8 (chan k color) - num8 (chan k backgroundColor)) * (num8 v / 255)))"
    unfolding p by (rule mix_intensity)
  show "rendered this target dx dy chCode color backgroundColor useLighterFont
            ! byte_index target (dx + x) (dy + y) 3
          = data target ! byte_index target (dx + x) (dy + y) 3"
    by (rule rendered_alpha) (rule alpha_index_mod)
  {
    assume "v = 0"
    then show "rendered this target dx dy chCode color backgroundColor useLighterFont
               ! byte_index target (dx + x) (dy + y) k
             = chan k backgroundColor"
      unfolding p by (simp only: mix_intensity_0)
  }
  {
    assume "v = 255"
    then show "rendered this target dx dy chCode color backgroundColor useLighterFont
               ! byte_index target (dx + x) (dy + y) k
             = chan k color"
      unfolding p by (simp only: mix_intensity_255)
  }
qed

theorem renderChar_blends_witness:
  "fits example_renderer example_target 1 0 \<and> wf_ImageData example_target \<and>
   x1_CHAR_WIDTH * scale example_renderer \<le> int (width example_target) \<and>
   rendered example_renderer example_target 1 0 32 example_color example_background False ! 7 = 23 \<and>
   length (rendered example_renderer example_target 1 0 32 example_color example_background False) = 16 \<and>
   atlas_read (atlas example_renderer False) (glyph_offset example_renderer 32 0 0) = Some 0 \<and>
   rendered example_renderer example_target 1 0 32 example_color example_background False
     ! byte_index example_target 1 0 0 = 100 \<and>
   atlas_read (atlas example_renderer False) (glyph_offset example_renderer 32 0 1) = Some 255 \<and>
   rendered example_renderer example_target 1 0 32 example_color example_background False
     ! byte_index example_target 1 1 1 = 100 \<and>
   atlas_read (atlas example_renderer False) (glyph_offset example_renderer 33 0 0) = Some 128 \<and>
   rendered example_renderer example_target 1 0 33 example_color example_background False
     ! byte_index example_target 1 0 0 = 150 \<and>
   fits example_built_renderer example_target 1 0 \<and>
   atlas_read (atlas example_built_renderer False) (glyph_offset example_built_renderer 32 0 1) = Some 204 \<and>
   rendered example_built_renderer example_target 1 0 32 example_color example_background False
     ! byte_index example_target 1 1 0 = 180"
proof -
  note defs = example_renderer_def example_target_def
    x1_CHAR_WIDTH_def x1_CHAR_HEIGHT_def glyph_offset_def atlas_def atlas_read_def
    getChIndex_32 getChIndex_33
  have sc: "scale example_built_renderer = 1"
    by (simp add: example_built_renderer_def new_MinimapCharRenderer_def)
  have cw: "x1_CHAR_WIDTH * scale example_renderer \<le> int (width example_target)"
    by (simp add: defs)
  have a0: "atlas_read (atlas example_renderer False) (glyph_offset example_renderer 32 0 0) = Some 0"
    by (simp add: defs)
  have a1: "atlas_read (atlas example_renderer False) (glyph_offset example_renderer 32 0 1) = Some 255"
    by (simp add: defs)
  have a2: "atlas_read (atlas example_renderer False) (glyph_offset example_renderer 33 0 0) = Some 128"
    by (simp add: defs)
  have a3: "atlas_read (atlas example_built_renderer False) (glyph_offset example_built_renderer 32 0 1) = Some 204"
    by (simp add: glyph_offset_def atlas_def atlas_read_def example_built_atlas sc getChIndex_32
          x1_CHAR_WIDTH_def x1_CHAR_HEIGHT_def)
  have h0: "x1_CHAR_WIDTH * scale example_renderer \<le> int (width example_target) \<and>
      wf_ImageData example_target \<and> (0::int) \<le> 0 \<and> 0 < x1_CHAR_WIDTH * scale example_renderer \<and>
      (0::int) \<le> 0 \<and> 0 < x1_CHAR_HEIGHT * scale example_renderer \<and>
      (0::int) \<le> 1 + 0 \<and> (0::int) \<le> 0 + 0 \<and> (0::nat) < 3 \<and>
      atlas_read (atlas example_renderer False) (glyph_offset example_renderer 32 0 0) = Some 0"
    using example_wf a0 by (simp add: defs)
  have h1: "x1_CHAR_WIDTH * scale example_renderer \<le> int (width example_target) \<and>
      wf_ImageData example_target \<and> (0::int) \<le> 0 \<and> 0 < x1_CHAR_WIDTH * scale example_renderer \<and>
      (0::int) \<le> 1 \<and> 1 < x1_CHAR_HEIGHT * scale example_renderer \<and>
      (0::int) \<le> 1 + 0 \<and> (0::int) \<le> 0 + 1 \<and> (1::nat) < 3 \<and>
      atlas_read (atlas example_renderer False) (glyph_offset example_renderer 32 0 1) = Some 255"
    using example_wf a1 by (simp add: defs)
  have h2: "x1_CHAR_WIDTH * scale example_renderer \<le> int (width example_target) \<and>
      wf_ImageData example_target \<and> (0::int) \<le> 0 \<and> 0 < x1_CHAR_WIDTH * scale example_renderer \<and>
      (0::int) \<le> 0 \<and> 0 < x1_CHAR_HEIGHT * scale example_renderer \<and>
      (0::int) \<le> 1 + 0 \<and> (0::int) \<le> 0 + 0 \<and> (0::nat) < 3 \<and>
      atlas_read (atlas example_renderer False) (glyph_offset example_renderer 33 0 0) = Some 128"
    using example_wf a2 by (simp add: defs)
  have h3: "x1_CHAR_WIDTH * scale example_built_renderer \<le> int (width example_target) \<and>
      wf_ImageData example_target \<and> (0::int) \<le> 0 \<and> 0 < x1_CHAR_WIDTH * scale example_built_renderer \<and>
      (0::int) \<le> 1 \<and> 1 < x1_CHAR_HEIGHT * scale example_built_renderer \<and>
      (0::int) \<le> 1 + 0 \<and> (0::int) \<le> 0 + 1 \<and> (0::nat) < 3 \<and>
      atlas_read (atlas example_built_renderer False) (glyph_offset example_built_renderer 32 0 1) = Some 204"
    using example_wf a3 by (simp add: sc example_target_def x1_CHAR_WIDTH_def x1_CHAR_HEIGHT_def)
  note t0 = renderChar_blends [OF example_fits, where i = 7 and x = 0 and y = 0 and k = 0 and v = 0
      and chCode = 32 and color = example_color and backgroundColor = example_background
      and useLighterFont = False]
  note t1 = renderChar_blends [OF example_fits, where x = 0 and y = 1 and k = 1 and v = 255
      and chCode = 32 and color = example_color and backgroundColor = example_background
      and useLighterFont = False]
  note t2 = renderChar_blends [OF example_fits, where x = 0 and y = 0 and k = 0 and v = 128
      and chCode = 33 and color = example_color and backgroundColor = example_background
      and useLighterFont = False]
  note t3 = renderChar_blends [OF example_built_fits, where x = 0 and y = 1 and k = 0 and v = 204
      and chCode = 32 and color = example_color and backgroundColor = example_background
      and useLighterFont = False]
  note p0 = t0 [THEN conjunct2, THEN conjunct2, THEN mp, OF h0]
  note p1 = t1 [THEN conjunct2, THEN conjunct2, THEN mp, OF h1]
  note p2 = t2 [THEN conjunct2, THEN conjunct2, THEN mp, OF h2]
  note p3 = t3 [THEN conjunct2, THEN conjunct2, THEN mp, OF h3]
  note ev = chan_def example_color_def example_background_def num8_def ToUint8Clamp_def Let_def
  have r7: "rendered example_renderer example_target 1 0 32 example_color example_background False ! 7 = 23"
    using t0 [THEN conjunct1] by (simp add: example_target_def)
  have rl: "length (rendered example_renderer example_target 1 0 32 example_color example_background False) = 16"
    using t0 [THEN conjunct2, THEN conjunct1] by (simp add: example_target_def)
  have r4: "rendered example_renderer example_target 1 0 32 example_color example_background False
     ! byte_index example_target 1 0 0 = 100"
    using p0 [THEN conjunct2, THEN conjunct2, THEN conjunct1, THEN mp, OF refl]
    by (simp add: chan_def example_background_def)
  have r13: "rendered example_renderer example_target 1 0 32 example_color example_background False
     ! byte_index example_target 1 1 1 = 100"
    using p1 [THEN conjunct2, THEN conjunct2, THEN conjunct2, THEN mp, OF refl]
    by (simp add: chan_def example_color_def)
  have r4': "rendered example_renderer example_target 1 0 33 example_color example_background False
     ! byte_index example_target 1 0 0 = 150"
    using p2 [THEN conjunct1] by (simp add: ev)
  have rb: "rendered example_built_renderer example_target 1 0 32 example_color example_background False
     ! byte_index example_target 1 1 0 = 180"
    using p3 [THEN conjunct1] by (simp add: ev)
  from example_fits example_wf cw r7 rl a0 r4 a1 r13 a2 r4' example_built_fits a3 rb
  show ?thesis by blast
qed

text \<open>
  The claim as stated covers every call that passes the bounds check and every atlas.
  With a negative \<open>dx\<close> the cell can be wider than the target: at scale 2 on a target
  one pixel wide, \<open>dx = -1\<close>, the pixel at cell position (1, 0) has atlas intensity 0 and
  is stored as the background, and the first store of the next row, which starts before
  that row, overwrites it with the foreground. And where the atlas is too short for the
  glyph the read is \<^verbatim>\<open>undefined\<close>, the blend is \<^verbatim>\<open>NaN\<close> and the byte stored is 0, which is
  no blend of the background 100 and the foreground 200.
\<close>

theorem wrapped_store_counterexample:
  "fits example_wide_renderer example_narrow_target (- 1) 0 \<and>
   wf_ImageData example_narrow_target \<and>
   atlas_read (atlas example_wide_renderer False) (glyph_offset example_wide_renderer 32 1 0) = Some 0 \<and>
   byte_index example_narrow_target (- 1 + 1) (0 + 0) 0 = 0 \<and>
   chan 0 example_background = 100 \<and>
   rendered example_wide_renderer example_narrow_target (- 1) 0 32 example_color example_background False ! 0 = 200 \<and>
   fits example_renderer example_target 1 0 \<and>
   atlas_read (atlas example_renderer False) (glyph_offset example_renderer 34 0 0) = None \<and>
   byte_index example_target (1 + 0) (0 + 0) 0 = 4 \<and>
   chan 0 example_color = 200 \<and>
   rendered example_renderer example_target 1 0 34 example_color example_background False ! 4 = 0"
  by code_simp

subsection \<open>Block rendering\<close>

text \<open>
  C7. For a call of \<^verbatim>\<open>blockRenderChar\<close> that passes the bounds check, the red, green and
  blue bytes of every pixel of the scaled cell that lies in the image hold one value
  per channel, the background channel plus half the difference to the foreground
  channel (through \<open>ToUint8Clamp\<close>), whatever the position in the cell; and the call
  does the same for both values of \<^verbatim>\<open>useLighterFont\<close>.
\<close>

theorem blockRenderChar_flat:
  assumes "fits this target dx dy"
  shows
    "(wf_ImageData target \<and> 0 \<le> x \<and> x < x1_CHAR_WIDTH * scale this \<and>
      0 \<le> y \<and> y < x1_CHAR_HEIGHT * scale this \<and> 0 \<le> dx + x \<and> 0 \<le> dy + y \<and> k < 3 \<longrightarrow>
        block_rendered this target dx dy color backgroundColor useLighterFont
            ! byte_index target (dx + x) (dy + y) k
          = ToUint8Clamp (Some (num8 (chan k backgroundColor)
              + (num8 (chan k color) - num8 (chan k backgroundColor)) * (1 / 2)))) \<and>
     blockRenderChar this target dx dy color backgroundColor True
       = blockRenderChar this target dx dy color backgroundColor False"
proof (intro conjI impI)
  assume h: "wf_ImageData target \<and> 0 \<le> x \<and> x < x1_CHAR_WIDTH * scale this \<and>
      0 \<le> y \<and> y < x1_CHAR_HEIGHT * scale this \<and> 0 \<le> dx + x \<and> 0 \<le> dy + y \<and> k < 3"
  then have "block_rendered this target dx dy color backgroundColor useLighterFont
            ! byte_index target (dx + x) (dy + y) k
          = mix (chan k backgroundColor) (chan k color) (Some (1 / 2))"
    using assms by (intro block_rendered_pixel) simp_all
  then show "block_rendered this target dx dy color backgroundColor useLighterFont
            ! byte_index target (dx + x) (dy + y) k
          = ToUint8Clamp (Some (num8 (chan k backgroundColor)
              + (num8 (chan k color) - num8 (chan k backgroundColor)) * (1 / 2)))"
    by (simp only: mix_def blend_def option.map)
next
  show "blockRenderChar this target dx dy color backgroundColor True
       = blockRenderChar this target dx dy color backgroundColor False"
    by (simp only: blockRenderChar_def)
qed

theorem blockRenderChar_flat_witness:
  "fits example_renderer example_target 1 0 \<and> wf_ImageData example_target \<and>
   block_rendered example_renderer example_target 1 0 example_color example_background False
     ! byte_index example_target 1 0 0 = 150 \<and>
   block_rendered example_renderer example_target 1 0 example_color example_background False
     ! byte_index example_target 1 1 0 = 150 \<and>
   block_rendered example_renderer example_target 1 0 example_color example_background False
     ! byte_index example_target 1 1 2 = 46 \<and>
   blockRenderChar example_renderer example_target 1 0 example_color example_background True
     = blockRenderChar example_renderer example_target 1 0 example_color example_background False"
proof -
  note defs = example_renderer_def example_target_def x1_CHAR_WIDTH_def x1_CHAR_HEIGHT_def
  have h0: "wf_ImageData example_target \<and> (0::int) \<le> 0 \<and>
      0 < x1_CHAR_WIDTH * scale example_renderer \<and>
      (0::int) \<le> 0 \<and> 0 < x1_CHAR_HEIGHT * scale example_renderer \<and>
      (0::int) \<le> 1 + 0 \<and> (0::int) \<le> 0 + 0 \<and> (0::nat) < 3"
    using example_wf by (simp add: defs)
  have h1: "wf_ImageData example_target \<and> (0::int) \<le> 0 \<and>
      0 < x1_CHAR_WIDTH * scale example_renderer \<and>
      (0::int) \<le> 1 \<and> 1 < x1_CHAR_HEIGHT * scale example_renderer \<and>
      (0::int) \<le> 1 + 0 \<and> (0::int) \<le> 0 + 1 \<and> (0::nat) < 3"
    using example_wf by (simp add: defs)
  have h2: "wf_ImageData example_target \<and> (0::int) \<le> 0 \<and>
      0 < x1_CHAR_WIDTH * scale example_renderer \<and>
      (0::int) \<le> 1 \<and> 1 < x1_CHAR_HEIGHT * scale example_renderer \<and>
      (0::int) \<le> 1 + 0 \<and> (0::int) \<le> 0 + 1 \<and> (2::nat) < 3"
    using example_wf by (simp add: defs)
  note t0 = blockRenderChar_flat [OF example_fits, where x = 0 and y = 0 and k = 0
      and color = example_color and backgroundColor = example_background and useLighterFont = False]
  note t1 = blockRenderChar_flat [OF example_fits, where x = 0 and y = 1 and k = 0
      and color = example_color and backgroundColor = example_background and useLighterFont = False]
  note t2 = blockRenderChar_flat [OF example_fits, where x = 0 and y = 1 and k = 2
      and color = example_color and backgroundColor = example_background and useLighterFont = False]
  note ev = chan_def example_color_def example_background_def num8_def ToUint8Clamp_def Let_def
  have r0: "block_rendered example_renderer example_target 1 0 example_color example_background False
     ! byte_index example_target 1 0 0 = 150"
    using t0 [THEN conjunct1, THEN mp, OF h0] by (simp add: ev)
  have r1: "block_rendered example_renderer example_target 1 0 example_color example_background False
     ! byte_index example_target 1 1 0 = 150"
    using t1 [THEN conjunct1, THEN mp, OF h1] by (simp add: ev)
  have r2: "block_rendered example_renderer example_target 1 0 example_color example_background False
     ! byte_index example_target 1 1 2 = 46"
    using t2 [THEN conjunct1, THEN mp, OF h2] by (simp add: ev)
  from example_fits example_wf r0 r1 r2 t0 [THEN conjunct2] show ?thesis by blast
qed

subsection \<open>The derived atlases\<close>

text \<open>
  C8. For every source atlas, every byte of the normal atlas (ratio 12/15) and of the
  lighter atlas (ratio 50/60) that the constructor derives is at most the byte of the
  source atlas at the same index; the lists have the same length.
\<close>

theorem derived_atlas_not_above_source:
  "list_all2 (\<lambda>d s. d \<le> s) (charDataNormal (new_MinimapCharRenderer charData scale')) charData \<and>
   list_all2 (\<lambda>d s. d \<le> s) (charDataLight (new_MinimapCharRenderer charData scale')) charData"
  by (simp add: new_MinimapCharRenderer_def soften_le)

subsection \<open>Idempotence\<close>

text \<open>
  C9. Calling \<^verbatim>\<open>renderChar\<close> again with the same arguments on the target that the first
  call produced yields that target again, and the same diagnostic.
\<close>

theorem renderChar_idempotent:
  "renderChar this (snd (renderChar this target dx dy chCode color backgroundColor useLighterFont))
     dx dy chCode color backgroundColor useLighterFont
   = renderChar this target dx dy chCode color backgroundColor useLighterFont"
  by (simp add: renderChar_eq renderChar_writes_data fits_data apply_writes_idem)

subsection \<open>The frame\<close>

text \<open>
  C10, as amended. For a call of \<^verbatim>\<open>renderChar\<close> or \<^verbatim>\<open>blockRenderChar\<close> that passes the
  bounds check with \<open>dx\<close> not negative (\<open>dy\<close> may be negative), every byte of the
  target outside the scaled cell at \<open>(dx, dy)\<close> keeps its value, and the target keeps
  its length.
\<close>

theorem bytes_outside_cell_unchanged:
  assumes "fits this target dx dy" "0 \<le> dx" "\<not> in_cell this target dx dy i"
  shows "rendered this target dx dy chCode color backgroundColor useLighterFont ! i = data target ! i \<and>
         block_rendered this target dx dy color backgroundColor useLighterFont ! i = data target ! i \<and>
         length (rendered this target dx dy chCode color backgroundColor useLighterFont) = length (data target) \<and>
         length (block_rendered this target dx dy color backgroundColor useLighterFont) = length (data target)"
  using assms
  by (simp add: rendered_outside block_rendered_outside) (simp add: rendered_eq block_rendered_eq)

theorem bytes_outside_cell_unchanged_witness:
  "fits example_renderer example_target 1 0 \<and> (0::int) \<le> 1 \<and>
   \<not> in_cell example_renderer example_target 1 0 2 \<and>
   rendered example_renderer example_target 1 0 65 example_color example_background False ! 2 = 12 \<and>
   block_rendered example_renderer example_target 1 0 example_color example_background False ! 2 = 12 \<and>
   length (rendered example_renderer example_target 1 0 65 example_color example_background False) = 16 \<and>
   length (block_rendered example_renderer example_target 1 0 example_color example_background False) = 16"
proof -
  have d: "(0::int) \<le> 1" by simp
  have n: "\<not> in_cell example_renderer example_target 1 0 2"
    by (simp add: in_cell_def example_renderer_def example_target_def x1_CHAR_WIDTH_def x1_CHAR_HEIGHT_def)
  show ?thesis
    using n bytes_outside_cell_unchanged [OF example_fits d n, of 65 example_color example_background False]
    by (simp add: example_fits) (simp add: example_target_def)
qed

text \<open>
  The claim as stated covers a negative \<open>dx\<close>. There the stores of a row start before
  the row and reach the end of the row above: with \<open>dx = -1\<close> the call changes byte 4,
  the red byte of the pixel at (1, 0), which is outside the cell.
\<close>

theorem negative_dx_counterexample:
  "fits example_renderer example_target (- 1) 0 \<and>
   \<not> in_cell example_renderer example_target (- 1) 0 4 \<and>
   data example_target ! 4 = 20 \<and>
   block_rendered example_renderer example_target (- 1) 0 example_color example_background False ! 4 = 150 \<and>
   rendered example_renderer example_target (- 1) 0 32 example_color example_background False ! 4 = 200"
  by code_simp

end
